theory Spec2Isabelle
  imports Complex_Main "HOL-Library.Monad_Syntax"
begin

section \<open>Numbers, points and constants\<close>

text \<open>
  The program is TypeScript; its \<^verbatim>\<open>number\<close> is modelled by \<^typ>\<open>real\<close>, so every
  statement below is about exact arithmetic. \<^verbatim>\<open>Math.sqrt\<close> and \<^verbatim>\<open>Math.hypot\<close> are the
  real square root, \<^verbatim>\<open>Math.sin\<close> is \<^const>\<open>sin\<close>.

  \<^verbatim>\<open>Point2D\<close> and \<^verbatim>\<open>Point3D\<close> are the interfaces of \<^verbatim>\<open>types.ts\<close>; the second is written
  as an extension of the first, so that the selectors \<open>x\<close> and \<open>y\<close> serve both.
\<close>

record Point2D =
  x :: real
  y :: real

record Point3D = Point2D +
  z :: real

record Stroke =
  points :: "Point2D list"
  color :: string
  width :: real
  closed' :: bool

text \<open>The constants of \<^verbatim>\<open>constants.ts\<close> and \<^verbatim>\<open>drawingCanvas.ts\<close> that the modelled code reads.\<close>

definition JITTER_THRESHOLD :: real where
  "JITTER_THRESHOLD = 3"

definition GESTURE_PINCH_THRESHOLD :: real where
  "GESTURE_PINCH_THRESHOLD = 40"

definition GESTURE_MIN_STROKE_LENGTH :: real where
  "GESTURE_MIN_STROKE_LENGTH = 50"

definition STROKE_WIDTH :: real where
  "STROKE_WIDTH = 10"

definition STROKE_MIN_POINT_DISTANCE :: real where
  "STROKE_MIN_POINT_DISTANCE = 8"

definition SCENE_INFLATION_AMOUNT :: real where
  "SCENE_INFLATION_AMOUNT = 12 / 10"

definition SCENE_BOB_AMPLITUDE :: real where
  "SCENE_BOB_AMPLITUDE = 1 / 10"

definition SCENE_DRIFT_SPEED :: real where
  "SCENE_DRIFT_SPEED = 2 / 100"

definition SCENE_COLLISION_RADIUS :: real where
  "SCENE_COLLISION_RADIUS = 15 / 10"

text \<open>\<^verbatim>\<open>distance(p1, p2)\<close>, the same in \<^verbatim>\<open>DrawingCanvas\<close> and \<^verbatim>\<open>GestureDetector\<close>.\<close>

definition distance :: "Point2D \<Rightarrow> Point2D \<Rightarrow> real" where
  "distance p1 p2 =
     (let dx = x p1 - x p2; dy = y p1 - y p2 in sqrt (dx * dx + dy * dy))"

section \<open>Stroke capture: \<^verbatim>\<open>DrawingCanvas\<close>\<close>

text \<open>
  The fields of the class that hold the stroke state; the canvas element and its 2D
  context only serve rendering and are left out.
\<close>

record DrawingCanvas =
  currentStroke :: "Stroke option"
  completedStrokes :: "Stroke list"
  livePosition :: "Point2D option"
  filteredPosition :: "Point2D option"
  recentPoints :: "Point2D list"

definition initialCanvas :: DrawingCanvas where
  "initialCanvas = \<lparr>currentStroke = None, completedStrokes = [], livePosition = None,
     filteredPosition = None, recentPoints = []\<rparr>"

definition startStroke :: "Point2D \<Rightarrow> string \<Rightarrow> DrawingCanvas \<Rightarrow> DrawingCanvas" where
  "startStroke point c s =
     s\<lparr>currentStroke := Some \<lparr>points = [point], color = c, width = STROKE_WIDTH, closed' = False\<rparr>,
       livePosition := Some point,
       filteredPosition := Some point,
       recentPoints := [point]\<rparr>"

text \<open>\<^verbatim>\<open>applyJitterFilter\<close> returns the filtered point and the updated object.\<close>

definition applyJitterFilter :: "Point2D \<Rightarrow> DrawingCanvas \<Rightarrow> Point2D \<times> DrawingCanvas" where
  "applyJitterFilter point s =
     (case filteredPosition s of
        None \<Rightarrow> (point, s\<lparr>filteredPosition := Some point\<rparr>)
      | Some f \<Rightarrow>
          if distance point f < JITTER_THRESHOLD then (f, s)
          else (point, s\<lparr>filteredPosition := Some point\<rparr>))"

text \<open>\<^verbatim>\<open>recentPoints.push(filtered); if (recentPoints.length > 10) recentPoints.shift()\<close>\<close>

definition pushRecent :: "Point2D \<Rightarrow> Point2D list \<Rightarrow> Point2D list" where
  "pushRecent filtered buf =
     (let buf1 = buf @ [filtered] in if length buf1 > 10 then tl buf1 else buf1)"

definition getSmoothedPosition :: "DrawingCanvas \<Rightarrow> Point2D" where
  "getSmoothedPosition s =
     (if length (recentPoints s) = 0 then \<lparr>x = 0, y = 0\<rparr>
      else
        let sumX = foldl (\<lambda>acc p. acc + x p) 0 (recentPoints s);
            sumY = foldl (\<lambda>acc p. acc + y p) 0 (recentPoints s)
        in \<lparr>x = sumX / real (length (recentPoints s)),
            y = sumY / real (length (recentPoints s))\<rparr>)"

text \<open>
  \<^verbatim>\<open>addPoint\<close>. The result \<open>None\<close> stands for the \<^verbatim>\<open>TypeError\<close> that JavaScript raises when
  the current stroke has no point, so that \<^verbatim>\<open>lastPoint\<close> is \<^verbatim>\<open>undefined\<close> and
  \<^verbatim>\<open>distance\<close> reads its \<^verbatim>\<open>x\<close>.
\<close>

definition addPoint :: "Point2D \<Rightarrow> DrawingCanvas \<Rightarrow> DrawingCanvas option" where
  "addPoint point s =
     (case currentStroke s of
        None \<Rightarrow> Some s
      | Some st \<Rightarrow>
          let (filtered, s1) = applyJitterFilter point s;
              s2 = s1\<lparr>recentPoints := pushRecent filtered (recentPoints s1)\<rparr>;
              smoothed = getSmoothedPosition s2;
              s3 = s2\<lparr>livePosition := Some smoothed\<rparr>
          in if points st = [] then None
             else
               let lastPoint = points st ! (length (points st) - 1);
                   dist = distance smoothed lastPoint
               in if dist \<ge> STROKE_MIN_POINT_DISTANCE
                  then Some (s3\<lparr>currentStroke := Some (st\<lparr>points := points st @ [smoothed]\<rparr>)\<rparr>)
                  else Some s3)"

definition updateLivePosition :: "Point2D \<Rightarrow> DrawingCanvas \<Rightarrow> DrawingCanvas" where
  "updateLivePosition point s =
     (let (filtered, s1) = applyJitterFilter point s;
          s2 = s1\<lparr>recentPoints := pushRecent filtered (recentPoints s1)\<rparr>
      in s2\<lparr>livePosition := Some (getSmoothedPosition s2)\<rparr>)"

definition clearLivePosition :: "DrawingCanvas \<Rightarrow> DrawingCanvas" where
  "clearLivePosition s = s\<lparr>livePosition := None, filteredPosition := None, recentPoints := []\<rparr>"

definition pauseStroke :: "DrawingCanvas \<Rightarrow> DrawingCanvas" where
  "pauseStroke s = s"

definition discardStroke :: "DrawingCanvas \<Rightarrow> DrawingCanvas" where
  "discardStroke s = s\<lparr>currentStroke := None\<rparr>"

text \<open>
  \<^verbatim>\<open>calculateStrokeLength\<close>: the loop runs \<open>i\<close> from 1 to the last index and adds the
  distance between the points \<open>i - 1\<close> and \<open>i\<close>.
\<close>

definition calculateStrokeLength :: "DrawingCanvas \<Rightarrow> real" where
  "calculateStrokeLength s =
     (case currentStroke s of
        None \<Rightarrow> 0
      | Some st \<Rightarrow>
          if length (points st) < 2 then 0
          else foldl (\<lambda>len i. len + distance (points st ! (i - 1)) (points st ! i)) 0
                 [1 ..< length (points st)])"

text \<open>\<^verbatim>\<open>closeStroke\<close> returns the closed stroke, or \<open>None\<close> for \<^verbatim>\<open>null\<close>, and the updated object.\<close>

definition closeStroke :: "DrawingCanvas \<Rightarrow> Stroke option \<times> DrawingCanvas" where
  "closeStroke s =
     (case currentStroke s of
        None \<Rightarrow> (None, s)
      | Some st \<Rightarrow>
          let len = calculateStrokeLength s
          in if len < GESTURE_MIN_STROKE_LENGTH then (None, discardStroke s)
             else if length (points st) > 2 then
               let closedStroke = st\<lparr>closed' := True\<rparr>
               in (Some closedStroke,
                   s\<lparr>completedStrokes := completedStrokes s @ [closedStroke],
                     currentStroke := None\<rparr>)
             else (None, discardStroke s))"

definition clearAll :: "DrawingCanvas \<Rightarrow> DrawingCanvas" where
  "clearAll s = s\<lparr>currentStroke := None, completedStrokes := []\<rparr>"

text \<open>
  \<^verbatim>\<open>removeCompletedStroke\<close> looks the stroke up with \<^verbatim>\<open>indexOf\<close> and splices it out. Completed
  strokes are never changed again, so removing the first equal stroke leaves the same
  list of values as removing the identical object.
\<close>

definition removeCompletedStroke :: "Stroke \<Rightarrow> DrawingCanvas \<Rightarrow> DrawingCanvas" where
  "removeCompletedStroke st s = s\<lparr>completedStrokes := remove1 st (completedStrokes s)\<rparr>"

text \<open>The arc length of a polyline, as the sum over its consecutive pairs.\<close>

fun arcLength :: "Point2D list \<Rightarrow> real" where
  "arcLength (p # q # ps) = distance p q + arcLength (q # ps)"
| "arcLength _ = 0"

text \<open>The four corners of a square of side 10, and an L-shaped stroke of length 200.\<close>

definition square10 :: "Point2D list" where
  "square10 = [\<lparr>x = 0, y = 0\<rparr>, \<lparr>x = 10, y = 0\<rparr>, \<lparr>x = 10, y = 10\<rparr>, \<lparr>x = 0, y = 10\<rparr>]"

definition corner100 :: "Point2D list" where
  "corner100 = [\<lparr>x = 0, y = 0\<rparr>, \<lparr>x = 100, y = 0\<rparr>, \<lparr>x = 100, y = 100\<rparr>]"

definition drawing :: "Point2D list \<Rightarrow> DrawingCanvas" where
  "drawing ps = initialCanvas\<lparr>currentStroke :=
     Some \<lparr>points = ps, color = ''#FFB3BA'', width = STROKE_WIDTH, closed' = False\<rparr>\<rparr>"

text \<open>
  The operations a caller can perform on the canvas, and a run of them from some state.
  \<open>runCanvas\<close> collects the strokes that \<^verbatim>\<open>closeStroke\<close> returned; it is \<open>None\<close> when
  an operation raises.
\<close>

datatype CanvasOp =
    StartStroke Point2D string
  | AddPoint Point2D
  | UpdateLivePosition Point2D
  | ClearLivePosition
  | PauseStroke
  | CloseStroke
  | DiscardStroke
  | ClearAll
  | RemoveCompletedStroke Stroke

fun canvasStep :: "CanvasOp \<Rightarrow> DrawingCanvas \<Rightarrow> (Stroke list \<times> DrawingCanvas) option" where
  "canvasStep (StartStroke p c) s = Some ([], startStroke p c s)"
| "canvasStep (AddPoint p) s = map_option (Pair []) (addPoint p s)"
| "canvasStep (UpdateLivePosition p) s = Some ([], updateLivePosition p s)"
| "canvasStep ClearLivePosition s = Some ([], clearLivePosition s)"
| "canvasStep PauseStroke s = Some ([], pauseStroke s)"
| "canvasStep CloseStroke s =
     (case closeStroke s of (None, s') \<Rightarrow> Some ([], s') | (Some st, s') \<Rightarrow> Some ([st], s'))"
| "canvasStep DiscardStroke s = Some ([], discardStroke s)"
| "canvasStep ClearAll s = Some ([], clearAll s)"
| "canvasStep (RemoveCompletedStroke st) s = Some ([], removeCompletedStroke st s)"

fun runCanvas :: "CanvasOp list \<Rightarrow> DrawingCanvas \<Rightarrow> (Stroke list \<times> DrawingCanvas) option" where
  "runCanvas [] s = Some ([], s)"
| "runCanvas (opn # ops) s =
     (case canvasStep opn s of
        None \<Rightarrow> None
      | Some (out1, s1) \<Rightarrow>
          (case runCanvas ops s1 of
             None \<Rightarrow> None
           | Some (out2, s2) \<Rightarrow> Some (out1 @ out2, s2)))"

text \<open>The arithmetic mean of a list of points, and the last \<open>n\<close> elements of a list.\<close>

definition mean :: "Point2D list \<Rightarrow> Point2D" where
  "mean ps = \<lparr>x = sum_list (map x ps) / real (length ps),
              y = sum_list (map y ps) / real (length ps)\<rparr>"

definition lastN :: "nat \<Rightarrow> 'a list \<Rightarrow> 'a list" where
  "lastN n xs = drop (length xs - n) xs"

text \<open>Consecutive points of a polyline keep the minimum spacing.\<close>

fun wellSpaced :: "Point2D list \<Rightarrow> bool" where
  "wellSpaced (p # q # ps) = (STROKE_MIN_POINT_DISTANCE \<le> distance q p \<and> wellSpaced (q # ps))"
| "wellSpaced _ = True"

definition finished :: "Stroke \<Rightarrow> bool" where
  "finished st \<longleftrightarrow> closed' st \<and> wellSpaced (points st)"

text \<open>
  What holds of the canvas after any sequence of operations: the stroke in progress has a
  point and keeps the spacing, the completed strokes are closed and keep the spacing,
  and the smoothing buffer holds at most 10 points.
\<close>

definition canvasInv :: "DrawingCanvas \<Rightarrow> bool" where
  "canvasInv s \<longleftrightarrow>
     (case currentStroke s of None \<Rightarrow> True | Some st \<Rightarrow> points st \<noteq> [] \<and> wellSpaced (points st))
     \<and> list_all finished (completedStrokes s)
     \<and> length (recentPoints s) \<le> 10"

text \<open>A short run: a stroke started at the origin, two more samples, and the closure.\<close>

definition threeSteps :: "CanvasOp list" where
  "threeSteps = [StartStroke \<lparr>x = 0, y = 0\<rparr> ''#FFB3BA'', AddPoint \<lparr>x = 100, y = 0\<rparr>,
      AddPoint \<lparr>x = 200, y = 0\<rparr>, CloseStroke]"

definition threeStepsStroke :: Stroke where
  "threeStepsStroke = \<lparr>points = [\<lparr>x = 0, y = 0\<rparr>, \<lparr>x = 50, y = 0\<rparr>, \<lparr>x = 100, y = 0\<rparr>],
      color = ''#FFB3BA'', width = STROKE_WIDTH, closed' = True\<rparr>"

text \<open>The canvas right after a stroke was started at the origin.\<close>

definition started :: DrawingCanvas where
  "started = startStroke \<lparr>x = 0, y = 0\<rparr> ''#FFB3BA'' initialCanvas"

section \<open>Gesture classification: \<^verbatim>\<open>GestureDetector\<close>\<close>

datatype GestureType = None' | Draw | Pinch | Palm | Fist | Poke | Swipe

record HandLandmarks =
  landmarks :: "Point2D list"
  worldLandmarks :: "Point3D list option"

text \<open>
  \<^verbatim>\<open>detect\<close> returns a \<^verbatim>\<open>GestureState\<close> to which it adds the field \<^verbatim>\<open>pinchDistance\<close>
  (cast to \<^verbatim>\<open>any\<close>); the field is absent from what \<^verbatim>\<open>createState\<close> builds.
\<close>

record GestureState =
  current :: GestureType
  previous :: GestureType
  duration :: real
  velocity :: Point2D
  confidence :: real
  pinchDistance :: "real option"

record GestureDetector =
  lastLandmarks :: "HandLandmarks option"
  lastTime :: real
  gestureStartTime :: real
  currentGesture :: GestureType
  previousGesture :: GestureType
  palmHistory :: "Point2D list"
  velocityHistory :: "Point2D list"

definition initialDetector :: GestureDetector where
  "initialDetector = \<lparr>lastLandmarks = None, lastTime = 0, gestureStartTime = 0,
     currentGesture = None', previousGesture = None', palmHistory = [], velocityHistory = []\<rparr>"

text \<open>The indices of \<^verbatim>\<open>LANDMARKS\<close> that the detector reads.\<close>

definition WRIST :: nat where "WRIST = 0"
definition THUMB_TIP :: nat where "THUMB_TIP = 4"
definition INDEX_MCP :: nat where "INDEX_MCP = 5"
definition INDEX_PIP :: nat where "INDEX_PIP = 6"
definition INDEX_TIP :: nat where "INDEX_TIP = 8"
definition MIDDLE_PIP :: nat where "MIDDLE_PIP = 10"
definition MIDDLE_TIP :: nat where "MIDDLE_TIP = 12"
definition RING_PIP :: nat where "RING_PIP = 14"
definition RING_TIP :: nat where "RING_TIP = 16"
definition PINKY_MCP :: nat where "PINKY_MCP = 17"
definition PINKY_PIP :: nat where "PINKY_PIP = 18"
definition PINKY_TIP :: nat where "PINKY_TIP = 20"

text \<open>
  Reading \<^verbatim>\<open>lm[i].x\<close> past the end of the array raises a \<^verbatim>\<open>TypeError\<close>, since \<^verbatim>\<open>lm[i]\<close>
  is \<^verbatim>\<open>undefined\<close>. Every function that reads landmarks therefore returns an option,
  \<open>None\<close> for the exception.
\<close>

definition landmark :: "HandLandmarks \<Rightarrow> nat \<Rightarrow> Point2D option" where
  "landmark lm i = (if i < length (landmarks lm) then Some (landmarks lm ! i) else None)"

definition isFingerExtended :: "HandLandmarks \<Rightarrow> nat \<Rightarrow> nat \<Rightarrow> bool option" where
  "isFingerExtended lm tipIdx pipIdx =
     do { tip \<leftarrow> landmark lm tipIdx; pip \<leftarrow> landmark lm pipIdx; Some (y tip < y pip) }"

text \<open>\<^verbatim>\<open>a && b\<close> evaluates \<open>b\<close> only when \<open>a\<close> is true.\<close>

definition andAlso :: "bool option \<Rightarrow> bool option \<Rightarrow> bool option" where
  "andAlso a b = (case a of None \<Rightarrow> None | Some False \<Rightarrow> Some False | Some True \<Rightarrow> b)"

definition isPointingIndex :: "HandLandmarks \<Rightarrow> bool option" where
  "isPointingIndex lm =
     do { indexOpen \<leftarrow> isFingerExtended lm INDEX_TIP INDEX_PIP;
          middleClosed \<leftarrow> map_option Not (isFingerExtended lm MIDDLE_TIP MIDDLE_PIP);
          ringClosed \<leftarrow> map_option Not (isFingerExtended lm RING_TIP RING_PIP);
          pinkyClosed \<leftarrow> map_option Not (isFingerExtended lm PINKY_TIP PINKY_PIP);
          Some (indexOpen \<and> middleClosed \<and> ringClosed \<and> pinkyClosed) }"

definition isOpenPalm :: "HandLandmarks \<Rightarrow> bool option" where
  "isOpenPalm lm =
     andAlso (isFingerExtended lm INDEX_TIP INDEX_PIP)
       (andAlso (isFingerExtended lm MIDDLE_TIP MIDDLE_PIP)
          (andAlso (isFingerExtended lm RING_TIP RING_PIP)
             (isFingerExtended lm PINKY_TIP PINKY_PIP)))"

definition isFist :: "HandLandmarks \<Rightarrow> bool option" where
  "isFist lm =
     andAlso (map_option Not (isFingerExtended lm INDEX_TIP INDEX_PIP))
       (andAlso (map_option Not (isFingerExtended lm MIDDLE_TIP MIDDLE_PIP))
          (andAlso (map_option Not (isFingerExtended lm RING_TIP RING_PIP))
             (map_option Not (isFingerExtended lm PINKY_TIP PINKY_PIP))))"

text \<open>
  \<^verbatim>\<open>detectGestureType\<close>. The pinch test compares with the literal 60 of the source, not
  with \<^verbatim>\<open>GESTURE.PINCH_THRESHOLD\<close>; the velocity argument is not used.
\<close>

definition detectGestureType :: "HandLandmarks \<Rightarrow> Point2D \<Rightarrow> GestureType option" where
  "detectGestureType lm vel =
     do { thumbTip \<leftarrow> landmark lm THUMB_TIP;
          indexTip \<leftarrow> landmark lm INDEX_TIP;
          if distance thumbTip indexTip < 60 then Some Pinch
          else do {
            pointing \<leftarrow> isPointingIndex lm;
            if pointing then Some Draw
            else do {
              palm \<leftarrow> isOpenPalm lm;
              if palm then Some Palm
              else do {
                fist \<leftarrow> isFist lm;
                if fist then Some Fist else Some None' } } } }"

definition getPalmCenter :: "HandLandmarks \<Rightarrow> Point2D option" where
  "getPalmCenter lm =
     do { wrist \<leftarrow> landmark lm WRIST;
          indexMcp \<leftarrow> landmark lm INDEX_MCP;
          pinkyMcp \<leftarrow> landmark lm PINKY_MCP;
          Some \<lparr>x = (x wrist + x indexMcp + x pinkyMcp) / 3,
                y = (y wrist + y indexMcp + y pinkyMcp) / 3\<rparr> }"

definition calculateVelocity :: "GestureDetector \<Rightarrow> HandLandmarks \<Rightarrow> real \<Rightarrow> Point2D option" where
  "calculateVelocity s lm dt =
     (case lastLandmarks s of
        None \<Rightarrow> Some \<lparr>x = 0, y = 0\<rparr>
      | Some lastLm \<Rightarrow>
          if dt = 0 then Some \<lparr>x = 0, y = 0\<rparr>
          else do { currentPalm \<leftarrow> getPalmCenter lm;
                    lastPalm \<leftarrow> getPalmCenter lastLm;
                    Some \<lparr>x = (x currentPalm - x lastPalm) / dt,
                          y = (y currentPalm - y lastPalm) / dt\<rparr> })"

definition createState :: "GestureDetector \<Rightarrow> GestureType \<Rightarrow> Point2D \<Rightarrow> real \<Rightarrow> GestureState" where
  "createState s gesture vel dur =
     \<lparr>current = gesture, previous = previousGesture s, duration = dur, velocity = vel,
      confidence = 1, pinchDistance = None\<rparr>"

text \<open>
  \<^verbatim>\<open>detect\<close>. The reading of \<^verbatim>\<open>performance.now()\<close> is the argument \<open>now\<close>, in milliseconds.
  The result is the returned state, or \<open>None\<close> when the call raises, together with the
  detector as the call leaves it: \<^verbatim>\<open>lastTime\<close> is assigned before anything can raise.
\<close>

definition detect :: "real \<Rightarrow> HandLandmarks option \<Rightarrow> GestureDetector
    \<Rightarrow> GestureState option \<times> GestureDetector" where
  "detect now frame s =
     (let dt = (if lastTime s > 0 then (now - lastTime s) / 1000 else 0);
          s1 = s\<lparr>lastTime := now\<rparr>
      in case frame of
           None \<Rightarrow> (Some (createState s1 None' \<lparr>x = 0, y = 0\<rparr> 0), s1)
         | Some lm \<Rightarrow>
             (case calculateVelocity s1 lm dt of
                None \<Rightarrow> (None, s1)
              | Some vel \<Rightarrow>
                  (case detectGestureType lm vel of
                     None \<Rightarrow> (None, s1)
                   | Some detectedGesture \<Rightarrow>
                       let s2 = (if detectedGesture \<noteq> currentGesture s1
                                 then s1\<lparr>previousGesture := currentGesture s1,
                                         currentGesture := detectedGesture,
                                         gestureStartTime := now\<rparr>
                                 else s1);
                           dur = now - gestureStartTime s2;
                           s3 = s2\<lparr>lastLandmarks := Some lm\<rparr>
                       in case (landmark lm THUMB_TIP, landmark lm INDEX_TIP) of
                            (Some thumbTip, Some indexTip) \<Rightarrow>
                              (Some ((createState s3 (currentGesture s3) vel dur)
                                       \<lparr>pinchDistance := Some (distance thumbTip indexTip)\<rparr>), s3)
                          | _ \<Rightarrow> (None, s3))))"

text \<open>A sequence of calls, each with its clock reading and its frame, and what they return.\<close>

fun detectAll :: "(real \<times> HandLandmarks option) list \<Rightarrow> GestureDetector
    \<Rightarrow> GestureState option list \<times> GestureDetector" where
  "detectAll [] s = ([], s)"
| "detectAll ((now, frame) # rest) s =
     (let (r, s1) = detect now frame s; (rs, s2) = detectAll rest s1 in (r # rs, s2))"

text \<open>
  Two frames of 21 landmarks. In \<open>pinchFrame\<close> all landmarks coincide, so thumb tip and
  index tip touch. In \<open>pinchDrawFrame\<close> the index joint lies below the index tip on the
  screen (larger \<open>y\<close>), so the index finger is extended while the other three are not, and
  thumb tip and index tip still touch.
\<close>

definition pinchFrame :: HandLandmarks where
  "pinchFrame = \<lparr>landmarks = replicate 21 \<lparr>x = 0, y = 0\<rparr>, worldLandmarks = None\<rparr>"

definition pinchDrawFrame :: HandLandmarks where
  "pinchDrawFrame =
     \<lparr>landmarks = (replicate 21 \<lparr>x = 0, y = 0\<rparr>)[INDEX_PIP := \<lparr>x = 0, y = 10\<rparr>],
      worldLandmarks = None\<rparr>"


text \<open>The gestures that \<^verbatim>\<open>detectGestureType\<close> has a \<^verbatim>\<open>return\<close> for.\<close>

definition knownGesture :: "GestureType \<Rightarrow> bool" where
  "knownGesture g \<longleftrightarrow> g \<in> {None', Draw, Pinch, Palm, Fist}"

text \<open>The detector after one call at time 1000 with \<open>pinchFrame\<close>: a pinch held since then.\<close>

definition heldPinch :: GestureDetector where
  "heldPinch = initialDetector\<lparr>lastTime := 1000, previousGesture := None', currentGesture := Pinch,
        gestureStartTime := 1000, lastLandmarks := Some pinchFrame\<rparr>"

section \<open>Curve fitting and inflation: \<^verbatim>\<open>BalloonInflator\<close>\<close>

definition simplifyPoints :: "Point2D list \<Rightarrow> nat \<Rightarrow> Point2D list" where
  "simplifyPoints pts targetCount =
     (if length pts \<le> targetCount then pts
      else
        let step = real (length pts) / real targetCount
        in map (\<lambda>i. pts ! min (nat \<lfloor>real i * step\<rfloor>) (length pts - 1)) [0 ..< targetCount])"

text \<open>
  \<^verbatim>\<open>getStrokeCenter\<close> divides by the number of points; \<^verbatim>\<open>createShape\<close> calls it with at
  least three.
\<close>

definition getStrokeCenter :: "Point2D list \<Rightarrow> Point2D" where
  "getStrokeCenter pts =
     (let sum = foldl (\<lambda>acc p. \<lparr>x = x acc + x p, y = y acc + y p\<rparr>) \<lparr>x = 0, y = 0\<rparr> pts
      in \<lparr>x = x sum / real (length pts), y = y sum / real (length pts)\<rparr>)"

text \<open>
  A \<^verbatim>\<open>THREE.Shape\<close> is represented by the calls that build it. The curve through the
  normalised points (\<^verbatim>\<open>THREE.CatmullRomCurve3\<close>, closed, sampled by \<^verbatim>\<open>getPoints(64)\<close>)
  belongs to the three.js library and is the parameter \<open>sampleCurve\<close>. \<^verbatim>\<open>createShape\<close>
  reads \<^verbatim>\<open>sampledPoints[0].x\<close>, which raises when there is no sample: the result \<open>None\<close>.
\<close>

datatype PathCommand =
    MoveTo real real
  | LineTo real real
  | Absarc real real real real real bool
  | ClosePath

definition createShape :: "(Point3D list \<Rightarrow> Point3D list) \<Rightarrow> Point2D list
    \<Rightarrow> PathCommand list option" where
  "createShape sampleCurve pts =
     (if length pts < 3 then Some [Absarc 0 0 1 0 (pi * 2) False]
      else
        let center = getStrokeCenter pts;
            normalizedPoints =
              map (\<lambda>p. \<lparr>x = (x p - x center) / 50, y = - (y p - y center) / 50\<rparr>) pts;
            sampledPoints =
              sampleCurve (map (\<lambda>p. \<lparr>x = x p, y = y p, z = 0\<rparr>) normalizedPoints)
        in if sampledPoints = [] then None
           else Some (MoveTo (x (sampledPoints ! 0)) (y (sampledPoints ! 0))
                      # map (\<lambda>i. LineTo (x (sampledPoints ! i)) (y (sampledPoints ! i)))
                          [1 ..< length sampledPoints]
                      @ [ClosePath]))"

text \<open>
  The point at parameter \<open>t\<close>, from 0 to 1, of the arc that \<^verbatim>\<open>absarc(aX, aY, r, a0, a1, false)\<close>
  adds: centre \<open>(aX, aY)\<close>, radius \<open>r\<close>, angles from \<open>a0\<close> to \<open>a1\<close> counter-clockwise.
\<close>

definition arcPoint :: "real \<Rightarrow> real \<Rightarrow> real \<Rightarrow> real \<Rightarrow> real \<Rightarrow> real \<Rightarrow> Point2D" where
  "arcPoint aX aY r a0 a1 t =
     \<lparr>x = aX + r * cos (a0 + t * (a1 - a0)), y = aY + r * sin (a0 + t * (a1 - a0))\<rparr>"

text \<open>
  A shape is closed when it is a single arc that ends where it starts, or when its last
  call is \<^verbatim>\<open>closePath\<close>.
\<close>

fun closedShape :: "PathCommand list \<Rightarrow> bool" where
  "closedShape [Absarc aX aY r a0 a1 cw] = (arcPoint aX aY r a0 a1 0 = arcPoint aX aY r a0 a1 1)"
| "closedShape cmds = (cmds \<noteq> [] \<and> last cmds = ClosePath)"

text \<open>A stand-in for the library's sampling: the control points, then the first one again.\<close>

definition polygonSamples :: "Point3D list \<Rightarrow> Point3D list" where
  "polygonSamples cs = (case cs of [] \<Rightarrow> [\<lparr>x = 0, y = 0, z = 0\<rparr>] | c # _ \<Rightarrow> cs @ [c])"

text \<open>
  The geometry, as far as \<^verbatim>\<open>inflateGeometry\<close> uses it: the attributes \<^verbatim>\<open>position\<close> and
  \<^verbatim>\<open>normal\<close>, each a list of vertices or absent. The bounding box and its centre are
  computed by three.js (\<^verbatim>\<open>computeBoundingBox\<close>, \<^verbatim>\<open>Box3.getCenter\<close>): the midpoint of the
  least and the greatest coordinate on each axis, the origin for an empty box. The
  rounding of the \<^verbatim>\<open>Float32Array\<close> is not modelled.
\<close>

record Geometry =
  positionAttribute :: "Point3D list option"
  normalAttribute :: "Point3D list option"

definition getCenter :: "Point3D list \<Rightarrow> Point3D" where
  "getCenter vs =
     (if vs = [] then \<lparr>x = 0, y = 0, z = 0\<rparr>
      else \<lparr>x = (Min (set (map x vs)) + Max (set (map x vs))) / 2,
            y = (Min (set (map y vs)) + Max (set (map y vs))) / 2,
            z = (Min (set (map z vs)) + Max (set (map z vs))) / 2\<rparr>)"

text \<open>The distance of two points in space, \<^verbatim>\<open>Math.sqrt(dx * dx + dy * dy + dz * dz)\<close>.\<close>

definition distance3 :: "Point3D \<Rightarrow> Point3D \<Rightarrow> real" where
  "distance3 p q =
     (let dx = x p - x q; dy = y p - y q; dz = z p - z q in sqrt (dx * dx + dy * dy + dz * dz))"

text \<open>
  The body of the loop of \<^verbatim>\<open>inflateGeometry\<close> for one vertex. The configured
  \<^verbatim>\<open>SCENE.INFLATION_AMOUNT\<close> is the argument \<open>amount\<close>.
\<close>

definition inflateVertex :: "real \<Rightarrow> Point3D \<Rightarrow> Point3D \<Rightarrow> Point3D" where
  "inflateVertex amount center v =
     (let dx = x v - x center; dy = y v - y center; dz = z v - z center;
          dist = sqrt (dx * dx + dy * dy + dz * dz)
      in if dist > 1 / 1000 then
           let inflateAmount = amount * (1 / 10)
           in \<lparr>x = x v + (dx / dist) * inflateAmount,
               y = y v + (dy / dist) * inflateAmount,
               z = z v + (dz / dist) * inflateAmount\<rparr>
         else \<lparr>x = x v, y = y v, z = z v\<rparr>)"

definition inflatePositions :: "real \<Rightarrow> Point3D list \<Rightarrow> Point3D list" where
  "inflatePositions amount vs = map (inflateVertex amount (getCenter vs)) vs"

text \<open>\<^verbatim>\<open>computeVertexNormals\<close> belongs to three.js and is a parameter.\<close>

definition inflateGeometry :: "(Point3D list \<Rightarrow> Point3D list) \<Rightarrow> Geometry \<Rightarrow> Geometry" where
  "inflateGeometry computeVertexNormals geometry =
     (case (positionAttribute geometry, normalAttribute geometry) of
        (Some vs, Some ns) \<Rightarrow>
          let inflatedPositions = inflatePositions SCENE_INFLATION_AMOUNT vs
          in geometry\<lparr>positionAttribute := Some inflatedPositions,
                      normalAttribute := Some (computeVertexNormals inflatedPositions)\<rparr>
      | _ \<Rightarrow> geometry)"

text \<open>Two vertices on the \<open>x\<close> axis and the centre of their bounding box.\<close>

definition twoVertices :: "Point3D list" where
  "twoVertices = [\<lparr>x = 0, y = 0, z = 0\<rparr>, \<lparr>x = 2, y = 0, z = 0\<rparr>]"

section \<open>Layout: \<^verbatim>\<open>ObjectManager\<close>\<close>

text \<open>
  \<^verbatim>\<open>BalloonObject\<close>. Of the mesh, its position, rotation and scale are kept, as the
  fields \<open>mesh_position\<close>, \<open>mesh_rotation\<close> and \<open>mesh_scale\<close>; geometry and material are
  left out. Euler angles and vectors are triples of numbers.
\<close>

record BalloonObject =
  id' :: string
  mesh_position :: Point3D
  mesh_rotation :: Point3D
  mesh_scale :: Point3D
  color' :: string
  originalStroke :: Stroke
  position :: Point3D
  targetPosition :: Point3D
  rotation :: Point3D
  rotationSpeed :: Point3D
  bobOffset :: real
  bobSpeed :: real
  scale :: real
  targetScale :: real
  createdAt :: real
  isGrabbed :: bool
  squishAmount :: real

text \<open>The operations of \<^verbatim>\<open>THREE.Vector3\<close> that the manager uses.\<close>

definition subVectors :: "Point3D \<Rightarrow> Point3D \<Rightarrow> Point3D" where
  "subVectors a b = \<lparr>x = x a - x b, y = y a - y b, z = z a - z b\<rparr>"

definition addVector :: "Point3D \<Rightarrow> Point3D \<Rightarrow> Point3D" where
  "addVector a b = \<lparr>x = x a + x b, y = y a + y b, z = z a + z b\<rparr>"

definition multiplyScalar :: "Point3D \<Rightarrow> real \<Rightarrow> Point3D" where
  "multiplyScalar a k = \<lparr>x = x a * k, y = y a * k, z = z a * k\<rparr>"

definition vectorLength :: "Point3D \<Rightarrow> real" where
  "vectorLength a = sqrt (x a * x a + y a * y a + z a * z a)"

text \<open>\<^verbatim>\<open>normalize\<close> divides by the length, or by 1 when the length is 0.\<close>

definition normalize :: "Point3D \<Rightarrow> Point3D" where
  "normalize a =
     (let l = (if vectorLength a = 0 then 1 else vectorLength a)
      in \<lparr>x = x a / l, y = y a / l, z = z a / l\<rparr>)"

text \<open>
  Objects are mutable and compared by identity (\<^verbatim>\<open>indexOf\<close>), so the manager holds
  references into a store of objects. \<open>nextRef\<close> is the next unused reference;
  \<open>sceneMeshes\<close> are the objects whose mesh is in the scene and \<open>disposals\<close> the removals
  whose animation has not completed yet.
\<close>

record ObjectManager =
  store :: "nat \<Rightarrow> BalloonObject"
  nextRef :: nat
  objects :: "nat list"
  idCounter :: nat
  sceneMeshes :: "nat list"
  disposals :: "(nat \<times> bool) list"

text \<open>Rotation, bobbing and drift of \<^verbatim>\<open>update\<close>, for one object.\<close>

definition autonomousMotion :: "real \<Rightarrow> real \<Rightarrow> BalloonObject \<Rightarrow> BalloonObject" where
  "autonomousMotion deltaTime elapsedTime obj =
     (let obj1 = obj\<lparr>mesh_rotation :=
            \<lparr>x = x (mesh_rotation obj) + x (rotationSpeed obj) * deltaTime,
             y = y (mesh_rotation obj) + y (rotationSpeed obj) * deltaTime,
             z = z (mesh_rotation obj) + z (rotationSpeed obj) * deltaTime\<rparr>\<rparr>;
          bobAmount = sin (elapsedTime * bobSpeed obj1 + bobOffset obj1) * SCENE_BOB_AMPLITUDE;
          obj2 = obj1\<lparr>mesh_position := (mesh_position obj1)\<lparr>y := y (targetPosition obj1) + bobAmount\<rparr>\<rparr>
      in obj2\<lparr>mesh_position := (mesh_position obj2)\<lparr>x := x (mesh_position obj2)
            + sin (elapsedTime * (2 / 10) + bobOffset obj2) * SCENE_DRIFT_SPEED * deltaTime\<rparr>\<rparr>)"

text \<open>The body of the loop of \<^verbatim>\<open>softCollisionAvoidance\<close> for one other object.\<close>

definition pushAway :: "real \<Rightarrow> BalloonObject \<Rightarrow> BalloonObject \<Rightarrow> BalloonObject" where
  "pushAway deltaTime obj other =
     (if id' other = id' obj then obj
      else
        let diff = subVectors (mesh_position obj) (mesh_position other);
            dist = vectorLength diff
        in if dist < SCENE_COLLISION_RADIUS \<and> dist > 1 / 1000 then
             let pushForce = ((SCENE_COLLISION_RADIUS - dist) / SCENE_COLLISION_RADIUS) * deltaTime * 2;
                 diff1 = multiplyScalar (normalize diff) pushForce;
                 obj1 = obj\<lparr>mesh_position := addVector (mesh_position obj) diff1\<rparr>;
                 diff2 = multiplyScalar diff1 (5 / 10)
             in obj1\<lparr>targetPosition := addVector (targetPosition obj1) diff2\<rparr>
           else obj)"

text \<open>
  \<^verbatim>\<open>softCollisionAvoidance\<close> visits every object of the list. The others are read from
  the store \<open>h\<close>; the object itself also occurs in the list and is skipped, having its own
  identifier.
\<close>

definition softCollisionAvoidance :: "(nat \<Rightarrow> BalloonObject) \<Rightarrow> nat list \<Rightarrow> real
    \<Rightarrow> BalloonObject \<Rightarrow> BalloonObject" where
  "softCollisionAvoidance h objs deltaTime obj =
     foldl (\<lambda>ob r. pushAway deltaTime ob (h r)) obj objs"

definition applySquish :: "BalloonObject \<Rightarrow> BalloonObject" where
  "applySquish obj =
     (if squishAmount obj > 0 then
        let squish = 1 - squishAmount obj * (3 / 10);
            expand = 1 + squishAmount obj * (15 / 100)
        in obj\<lparr>mesh_scale := \<lparr>x = scale obj * expand, y = scale obj * squish, z = scale obj * expand\<rparr>\<rparr>
      else obj)"

text \<open>One round of the loop of \<^verbatim>\<open>update\<close>, for the object at reference \<open>r\<close>.\<close>

definition updateObject :: "nat list \<Rightarrow> real \<Rightarrow> real \<Rightarrow> (nat \<Rightarrow> BalloonObject) \<Rightarrow> nat
    \<Rightarrow> (nat \<Rightarrow> BalloonObject)" where
  "updateObject objs deltaTime elapsedTime h r =
     (if isGrabbed (h r) then h
      else h(r := applySquish (softCollisionAvoidance h objs deltaTime
                  (autonomousMotion deltaTime elapsedTime (h r)))))"

definition update :: "real \<Rightarrow> real \<Rightarrow> ObjectManager \<Rightarrow> ObjectManager" where
  "update deltaTime elapsedTime m =
     m\<lparr>store := foldl (updateObject (objects m) deltaTime elapsedTime) (store m) (objects m)\<rparr>"

text \<open>\<^verbatim>\<open>Array.prototype.indexOf\<close>: the first index of the element, \<open>None\<close> for \<open>-1\<close>.\<close>

fun indexOf :: "'a \<Rightarrow> 'a list \<Rightarrow> nat option" where
  "indexOf a [] = None"
| "indexOf a (b # bs) = (if a = b then Some 0 else map_option Suc (indexOf a bs))"

text \<open>
  \<^verbatim>\<open>removeObject\<close>, up to the point where it returns its promise: the object is spliced
  out of the list and the disposal animation is scheduled. \<open>finishDisposal\<close> is the
  \<^verbatim>\<open>onComplete\<close> callback of that animation, which takes the mesh out of the scene.
\<close>

definition removeObject :: "nat \<Rightarrow> bool \<Rightarrow> ObjectManager \<Rightarrow> ObjectManager" where
  "removeObject obj fade m =
     (case indexOf obj (objects m) of
        None \<Rightarrow> m
      | Some index \<Rightarrow>
          m\<lparr>objects := take index (objects m) @ drop (Suc index) (objects m),
            disposals := disposals m @ [(obj, fade)]\<rparr>)"

definition finishDisposal :: "nat \<Rightarrow> ObjectManager \<Rightarrow> ObjectManager" where
  "finishDisposal obj m =
     m\<lparr>sceneMeshes := removeAll obj (sceneMeshes m),
       disposals := filter (\<lambda>d. fst d \<noteq> obj) (disposals m)\<rparr>"

text \<open>The decimal digits of a number, for the identifier \<^verbatim>\<open>balloon_n\<close>.\<close>

fun digits :: "nat \<Rightarrow> string" where
  "digits n =
     (if n < 10 then [char_of (48 + n)] else digits (n div 10) @ [char_of (48 + n mod 10)])"

text \<open>
  \<^verbatim>\<open>createFromStroke\<close>, up to its first \<^verbatim>\<open>await\<close>. The argument \<open>made\<close> carries what the
  inflator, \<^verbatim>\<open>Math.random\<close> and \<^verbatim>\<open>Date.now\<close> supply (position and rotation of the mesh,
  rotation, rotation speed, bob offset and speed, creation time); the other fields are
  set as the object literal sets them.
\<close>

definition createFromStroke :: "Stroke \<Rightarrow> BalloonObject \<Rightarrow> ObjectManager \<Rightarrow> ObjectManager" where
  "createFromStroke stroke made m =
     (let balloonObject = made\<lparr>
            id' := ''balloon_'' @ digits (idCounter m),
            mesh_scale := \<lparr>x = 1 / 1000, y = 1 / 1000, z = 1 / 1000\<rparr>,
            color' := color stroke,
            originalStroke := stroke,
            position := mesh_position made,
            targetPosition := mesh_position made,
            scale := 1, targetScale := 1, isGrabbed := False, squishAmount := 0\<rparr>;
          r = nextRef m
      in m\<lparr>store := (store m)(r := balloonObject),
           nextRef := Suc r,
           idCounter := Suc (idCounter m),
           sceneMeshes := sceneMeshes m @ [r],
           objects := objects m @ [r]\<rparr>)"

text \<open>The last statement of \<^verbatim>\<open>clearAll\<close>: \<^verbatim>\<open>this.objects = []\<close>.\<close>

definition clearObjects :: "ObjectManager \<Rightarrow> ObjectManager" where
  "clearObjects m = m\<lparr>objects := []\<rparr>"

text \<open>An object at rest at the origin, and the manager as its constructor leaves it.\<close>

definition blankObject :: BalloonObject where
  "blankObject = \<lparr>id' = '''',
     mesh_position = \<lparr>x = 0, y = 0, z = 0\<rparr>, mesh_rotation = \<lparr>x = 0, y = 0, z = 0\<rparr>,
     mesh_scale = \<lparr>x = 1, y = 1, z = 1\<rparr>, color' = ''#FFB3BA'',
     originalStroke = threeStepsStroke,
     position = \<lparr>x = 0, y = 0, z = 0\<rparr>, targetPosition = \<lparr>x = 0, y = 0, z = 0\<rparr>,
     rotation = \<lparr>x = 0, y = 0, z = 0\<rparr>, rotationSpeed = \<lparr>x = 0, y = 0, z = 0\<rparr>,
     bobOffset = 0, bobSpeed = 1, scale = 1, targetScale = 1, createdAt = 0,
     isGrabbed = False, squishAmount = 0\<rparr>"

definition initialManager :: ObjectManager where
  "initialManager = \<lparr>store = (\<lambda>r. blankObject), nextRef = 0, objects = [], idCounter = 0,
     sceneMeshes = [], disposals = []\<rparr>"

text \<open>The methods that assign or read the list of objects, and a run of them.\<close>

datatype ManagerOp =
    CreateFromStroke Stroke BalloonObject
  | RemoveObject nat bool
  | FinishDisposal nat
  | Update real real
  | ClearObjects

fun managerStep :: "ObjectManager \<Rightarrow> ManagerOp \<Rightarrow> ObjectManager" where
  "managerStep m (CreateFromStroke stroke made) = createFromStroke stroke made m"
| "managerStep m (RemoveObject obj fade) = removeObject obj fade m"
| "managerStep m (FinishDisposal obj) = finishDisposal obj m"
| "managerStep m (Update deltaTime elapsedTime) = update deltaTime elapsedTime m"
| "managerStep m ClearObjects = clearObjects m"

definition runManager :: "ManagerOp list \<Rightarrow> ObjectManager \<Rightarrow> ObjectManager" where
  "runManager ops m = foldl managerStep m ops"

text \<open>
  What holds of the manager after any run: no reference occurs twice in the list of
  objects, and every reference in it has been allocated.
\<close>

definition managerInv :: "ObjectManager \<Rightarrow> bool" where
  "managerInv m \<longleftrightarrow> distinct (objects m) \<and> list_all (\<lambda>r. r < nextRef m) (objects m)"

text \<open>
  A scene of two objects at the same place, the first one grabbed, and a scene with the
  second object one unit to the right of the first.
\<close>

definition heldObject :: BalloonObject where
  "heldObject = blankObject\<lparr>id' := ''balloon_0'', isGrabbed := True\<rparr>"

definition freeObject :: BalloonObject where
  "freeObject = blankObject\<lparr>id' := ''balloon_1''\<rparr>"

definition overlapScene :: ObjectManager where
  "overlapScene = \<lparr>store = (\<lambda>r. if r = 0 then heldObject else freeObject), nextRef = 2,
     objects = [0, 1], idCounter = 2, sceneMeshes = [0, 1], disposals = []\<rparr>"

definition nearObject :: BalloonObject where
  "nearObject = blankObject\<lparr>id' := ''balloon_1'',
     mesh_position := \<lparr>x = 1, y = 0, z = 0\<rparr>, targetPosition := \<lparr>x = 1, y = 0, z = 0\<rparr>\<rparr>"

definition nearScene :: ObjectManager where
  "nearScene = \<lparr>store = (\<lambda>r. if r = 0 then heldObject else nearObject), nextRef = 2,
     objects = [0, 1], idCounter = 2, sceneMeshes = [0, 1], disposals = []\<rparr>"

text \<open>
  A scene of three objects, listed with a free object first, then the grabbed one one unit
  to its left, then a free object far away.
\<close>

definition farObject :: BalloonObject where
  "farObject = blankObject\<lparr>id' := ''balloon_2'',
     mesh_position := \<lparr>x = 10, y = 0, z = 0\<rparr>, targetPosition := \<lparr>x = 10, y = 0, z = 0\<rparr>\<rparr>"

definition threeScene :: ObjectManager where
  "threeScene = \<lparr>store = (\<lambda>r. if r = 0 then heldObject else if r = 1 then nearObject else farObject),
     nextRef = 3, objects = [1, 0, 2], idCounter = 3, sceneMeshes = [0, 1, 2], disposals = []\<rparr>"

text \<open>The store when the loop of \<^verbatim>\<open>update\<close> reaches the object at index \<open>i\<close> of the list.\<close>

definition storeAt :: "real \<Rightarrow> real \<Rightarrow> ObjectManager \<Rightarrow> nat \<Rightarrow> (nat \<Rightarrow> BalloonObject)" where
  "storeAt deltaTime elapsedTime m i =
     foldl (updateObject (objects m) deltaTime elapsedTime) (store m) (take i (objects m))"

text \<open>Two balloons created one after the other.\<close>

definition twoBalloonOps :: "ManagerOp list" where
  "twoBalloonOps = [CreateFromStroke threeStepsStroke blankObject,
     CreateFromStroke threeStepsStroke blankObject]"

section \<open>Facts about distances\<close>

lemma distance_nonneg: "0 \<le> distance p q"
  by (simp add: distance_def Let_def)

lemma distance_same_y: "y p = y q \<Longrightarrow> distance p q = \<bar>x p - x q\<bar>"
  by (simp add: distance_def Let_def)

lemma distance_same_x: "x p = x q \<Longrightarrow> distance p q = \<bar>y p - y q\<bar>"
  by (simp add: distance_def Let_def)

lemma foldl_add_shift:
  "foldl (\<lambda>len i. len + (f i :: real)) a is = a + foldl (\<lambda>len i. len + f i) 0 is"
proof (induction "is" arbitrary: a)
  case Nil
  show ?case by simp
next
  case (Cons i "is")
  have "foldl (\<lambda>len i. len + f i) (a + f i) is = (a + f i) + foldl (\<lambda>len i. len + f i) 0 is"
    by (rule Cons.IH)
  moreover have "foldl (\<lambda>len i. len + f i) (0 + f i) is = (0 + f i) + foldl (\<lambda>len i. len + f i) 0 is"
    by (rule Cons.IH)
  ultimately show ?case by simp
qed

lemma foldl_add_sum_list:
  "foldl (\<lambda>len i. len + (f i :: real)) 0 is = sum_list (map f is)"
proof (induction "is")
  case Nil
  show ?case by simp
next
  case (Cons i "is")
  then show ?case using foldl_add_shift [of f "f i" "is"] by simp
qed

lemma sum_split_first:
  "sum g {Suc 0 ..< Suc (Suc n)} = (g (Suc 0) :: real) + sum (\<lambda>i. g (Suc i)) {Suc 0 ..< Suc n}"
proof -
  have "sum g {Suc 0 ..< Suc (Suc n)} = g (Suc 0) + sum g {Suc (Suc 0) ..< Suc (Suc n)}"
    by (rule sum.atLeast_Suc_lessThan) simp
  then show ?thesis by (simp only: sum.shift_bounds_Suc_ivl)
qed

lemma arcLength_index_sum:
  "arcLength ps = sum (\<lambda>i. distance (ps ! (i - 1)) (ps ! i)) {Suc 0 ..< length ps}"
proof (induction ps rule: arcLength.induct)
  case (1 p q ps)
  have "sum (\<lambda>i. distance ((p # q # ps) ! (i - 1)) ((p # q # ps) ! i)) {Suc 0 ..< Suc (Suc (length ps))}
      = distance p q
        + sum (\<lambda>i. distance ((p # q # ps) ! (Suc i - 1)) ((p # q # ps) ! Suc i)) {Suc 0 ..< Suc (length ps)}"
    by (subst sum_split_first) simp
  also have "sum (\<lambda>i. distance ((p # q # ps) ! (Suc i - 1)) ((p # q # ps) ! Suc i)) {Suc 0 ..< Suc (length ps)}
      = sum (\<lambda>i. distance ((q # ps) ! (i - 1)) ((q # ps) ! i)) {Suc 0 ..< Suc (length ps)}"
    by (rule sum.cong) (auto simp: nth_Cons')
  finally show ?case using 1 by simp
qed simp_all

lemma calculateStrokeLength_arcLength:
  "currentStroke s = Some st \<Longrightarrow> calculateStrokeLength s = arcLength (points st)"
proof -
  assume cur: "currentStroke s = Some st"
  show ?thesis
  proof (cases "length (points st) < 2")
    case True
    then have "arcLength (points st) = 0"
      by (cases "points st" rule: arcLength.cases) simp_all
    with cur True show ?thesis by (simp add: calculateStrokeLength_def)
  next
    case False
    with cur show ?thesis
      by (simp add: calculateStrokeLength_def foldl_add_sum_list arcLength_index_sum
            interv_sum_list_conv_sum_set_nat)
  qed
qed

lemma distance3_moved_outward:
  assumes dpos: "0 < distance3 v c" and apos: "0 \<le> a"
  shows "distance3 \<lparr>x = x v + ((x v - x c) / distance3 v c) * a,
                    y = y v + ((y v - y c) / distance3 v c) * a,
                    z = z v + ((z v - z c) / distance3 v c) * a\<rparr> c = distance3 v c + a"
proof -
  define dx where "dx = x v - x c"
  define dy where "dy = y v - y c"
  define dz where "dz = z v - z c"
  define d where "d = distance3 v c"
  define k where "k = 1 + a / d"
  have dd: "d = sqrt (dx * dx + dy * dy + dz * dz)"
    by (simp add: d_def distance3_def Let_def dx_def dy_def dz_def)
  have dp: "0 < d" using dpos by (simp add: d_def)
  have sq: "dx * dx + dy * dy + dz * dz = d * d"
  proof -
    have "0 \<le> dx * dx + dy * dy + dz * dz" by simp
    then show ?thesis unfolding dd by simp
  qed
  have kpos: "0 < k"
  proof -
    have "0 \<le> a / d" using dp apos by simp
    then show ?thesis unfolding k_def by linarith
  qed
  have ex: "x v + (dx / d) * a - x c = k * dx"
    using dp by (simp add: k_def dx_def field_simps)
  have ey: "y v + (dy / d) * a - y c = k * dy"
    using dp by (simp add: k_def dy_def field_simps)
  have ez: "z v + (dz / d) * a - z c = k * dz"
    using dp by (simp add: k_def dz_def field_simps)
  have "distance3 \<lparr>x = x v + (dx / d) * a, y = y v + (dy / d) * a, z = z v + (dz / d) * a\<rparr> c
      = sqrt ((x v + (dx / d) * a - x c) * (x v + (dx / d) * a - x c)
            + (y v + (dy / d) * a - y c) * (y v + (dy / d) * a - y c)
            + (z v + (dz / d) * a - z c) * (z v + (dz / d) * a - z c))"
    by (simp only: distance3_def Let_def Point2D.select_convs Point3D.select_convs)
  also have "\<dots> = sqrt ((k * dx) * (k * dx) + (k * dy) * (k * dy) + (k * dz) * (k * dz))"
    by (simp only: ex ey ez)
  also have "(k * dx) * (k * dx) + (k * dy) * (k * dy) + (k * dz) * (k * dz)
      = (k * d) * (k * d)"
  proof -
    have "(k * dx) * (k * dx) + (k * dy) * (k * dy) + (k * dz) * (k * dz)
        = k * k * (dx * dx + dy * dy + dz * dz)"
      by (simp add: algebra_simps)
    also have "\<dots> = k * k * (d * d)" by (simp only: sq)
    also have "\<dots> = (k * d) * (k * d)" by (simp add: algebra_simps)
    finally show ?thesis .
  qed
  also have "sqrt ((k * d) * (k * d)) = k * d"
    using kpos dp by simp
  also have "k * d = d + a"
    using dp by (simp add: k_def field_simps)
  finally show ?thesis by (simp only: dx_def dy_def dz_def d_def)
qed

section \<open>Closing a stroke\<close>

lemma arcLength_square10: "arcLength square10 = 30"
  by (simp add: square10_def distance_same_x distance_same_y)

lemma arcLength_corner100: "arcLength corner100 = 200"
  by (simp add: corner100_def distance_same_x distance_same_y)

text \<open>
  Claim C1. For every stroke in progress, \<^verbatim>\<open>closeStroke\<close> discards the stroke and returns
  \<^verbatim>\<open>null\<close> when the arc length of the polyline (the sum of the distances of consecutive
  points) is below \<^verbatim>\<open>GESTURE.MIN_STROKE_LENGTH\<close> or the stroke has fewer than 3 points;
  otherwise it returns a copy of the stroke with \<^verbatim>\<open>closed = true\<close>, records it among the
  completed strokes and clears the stroke in progress. The four corners of a square of
  side 10 (arc length 30, below the threshold 50) give \<^verbatim>\<open>null\<close>.
\<close>

theorem closeStroke_policy:
  "(\<forall>(s::DrawingCanvas) st. currentStroke s = Some st \<longrightarrow>
      closeStroke s =
        (if arcLength (points st) < GESTURE_MIN_STROKE_LENGTH \<or> length (points st) < 3
         then (None, s\<lparr>currentStroke := None\<rparr>)
         else (Some (st\<lparr>closed' := True\<rparr>),
               s\<lparr>completedStrokes := completedStrokes s @ [st\<lparr>closed' := True\<rparr>],
                 currentStroke := None\<rparr>)))
   \<and> GESTURE_MIN_STROKE_LENGTH = 50
   \<and> closeStroke (drawing square10) = (None, initialCanvas)"
proof (intro conjI allI impI)
  fix s :: DrawingCanvas and st
  assume cur: "currentStroke s = Some st"
  then have "calculateStrokeLength s = arcLength (points st)"
    by (rule calculateStrokeLength_arcLength)
  with cur show "closeStroke s =
        (if arcLength (points st) < GESTURE_MIN_STROKE_LENGTH \<or> length (points st) < 3
         then (None, s\<lparr>currentStroke := None\<rparr>)
         else (Some (st\<lparr>closed' := True\<rparr>),
               s\<lparr>completedStrokes := completedStrokes s @ [st\<lparr>closed' := True\<rparr>],
                 currentStroke := None\<rparr>))"
    by (auto simp: closeStroke_def discardStroke_def Let_def)
next
  show "GESTURE_MIN_STROKE_LENGTH = 50"
    by (simp add: GESTURE_MIN_STROKE_LENGTH_def)
next
  have "currentStroke (drawing square10) =
      Some \<lparr>points = square10, color = ''#FFB3BA'', width = STROKE_WIDTH, closed' = False\<rparr>"
    by (simp add: drawing_def)
  then have "calculateStrokeLength (drawing square10) = 30"
    using calculateStrokeLength_arcLength arcLength_square10 by fastforce
  then show "closeStroke (drawing square10) = (None, initialCanvas)"
    by (simp add: closeStroke_def discardStroke_def drawing_def Let_def
        GESTURE_MIN_STROKE_LENGTH_def initialCanvas_def)
qed

theorem closeStroke_policy_witness:
  "currentStroke (drawing corner100) =
     Some \<lparr>points = corner100, color = ''#FFB3BA'', width = STROKE_WIDTH, closed' = False\<rparr>
   \<and> fst (closeStroke (drawing corner100)) =
     Some \<lparr>points = corner100, color = ''#FFB3BA'', width = STROKE_WIDTH, closed' = True\<rparr>
   \<and> currentStroke (snd (closeStroke (drawing corner100))) = None"
proof -
  have cur: "currentStroke (drawing corner100) =
     Some \<lparr>points = corner100, color = ''#FFB3BA'', width = STROKE_WIDTH, closed' = False\<rparr>"
    by (simp add: drawing_def)
  have len: "length corner100 = 3" by (simp add: corner100_def)
  show ?thesis
    using closeStroke_policy [THEN conjunct1, rule_format, OF cur] cur
    by (simp add: arcLength_corner100 GESTURE_MIN_STROKE_LENGTH_def len)
qed

section \<open>Gesture classification\<close>

lemma landmark_pinchFrame: "i < 21 \<Longrightarrow> landmark pinchFrame i = Some \<lparr>x = 0, y = 0\<rparr>"
  by (simp add: landmark_def pinchFrame_def)

lemma landmark_pinchDrawFrame:
  "i < 21 \<Longrightarrow> landmark pinchDrawFrame i = Some (if i = INDEX_PIP then \<lparr>x = 0, y = 10\<rparr> else \<lparr>x = 0, y = 0\<rparr>)"
  by (simp add: landmark_def pinchDrawFrame_def nth_list_update INDEX_PIP_def)

lemmas landmark_indices = WRIST_def THUMB_TIP_def INDEX_MCP_def INDEX_PIP_def INDEX_TIP_def
  MIDDLE_PIP_def MIDDLE_TIP_def RING_PIP_def RING_TIP_def PINKY_MCP_def PINKY_PIP_def PINKY_TIP_def

lemma distance_self: "distance p p = 0"
  by (simp add: distance_def)

lemma isPointingIndex_pinchDrawFrame: "isPointingIndex pinchDrawFrame = Some True"
  by (simp add: isPointingIndex_def isFingerExtended_def landmark_pinchDrawFrame landmark_indices)

text \<open>
  Claim C2. Whenever the thumb tip and the index tip are closer than the configured
  \<^verbatim>\<open>GESTURE.PINCH_THRESHOLD\<close> (40), the classifier returns pinch; this also holds for a
  frame in the draw pose (index extended, middle, ring and pinky not extended): the
  pinch test comes first, so such a frame is a pinch and not a draw. The test in the
  source compares with 60, so every distance below 40 passes it.
\<close>

theorem pinch_before_draw:
  "(\<forall>lm vel thumbTip indexTip.
       landmark lm THUMB_TIP = Some thumbTip \<and> landmark lm INDEX_TIP = Some indexTip
       \<and> distance thumbTip indexTip < GESTURE_PINCH_THRESHOLD
       \<longrightarrow> detectGestureType lm vel = Some Pinch)
   \<and> (\<forall>lm vel thumbTip indexTip.
       landmark lm THUMB_TIP = Some thumbTip \<and> landmark lm INDEX_TIP = Some indexTip
       \<and> distance thumbTip indexTip < GESTURE_PINCH_THRESHOLD
       \<and> isPointingIndex lm = Some True
       \<longrightarrow> detectGestureType lm vel = Some Pinch \<and> detectGestureType lm vel \<noteq> Some Draw)"
  by (simp add: detectGestureType_def GESTURE_PINCH_THRESHOLD_def)

theorem pinch_before_draw_witness:
  "landmark pinchDrawFrame THUMB_TIP = Some \<lparr>x = 0, y = 0\<rparr>
   \<and> landmark pinchDrawFrame INDEX_TIP = Some \<lparr>x = 0, y = 0\<rparr>
   \<and> distance \<lparr>x = 0, y = 0\<rparr> \<lparr>x = 0, y = 0\<rparr> < GESTURE_PINCH_THRESHOLD
   \<and> isPointingIndex pinchDrawFrame = Some True
   \<and> detectGestureType pinchDrawFrame \<lparr>x = 0, y = 0\<rparr> = Some Pinch"
proof -
  have a: "landmark pinchDrawFrame THUMB_TIP = Some \<lparr>x = 0, y = 0\<rparr>"
    by (simp add: landmark_pinchDrawFrame landmark_indices)
  have b: "landmark pinchDrawFrame INDEX_TIP = Some \<lparr>x = 0, y = 0\<rparr>"
    by (simp add: landmark_pinchDrawFrame landmark_indices)
  have c: "distance \<lparr>x = 0, y = 0\<rparr> \<lparr>x = 0, y = 0\<rparr> < GESTURE_PINCH_THRESHOLD"
    by (simp add: distance_self GESTURE_PINCH_THRESHOLD_def)
  have d: "isPointingIndex pinchDrawFrame = Some True"
    by (rule isPointingIndex_pinchDrawFrame)
  from pinch_before_draw [THEN conjunct2, rule_format, of pinchDrawFrame _ _ "\<lparr>x = 0, y = 0\<rparr>"] a b c d
  show ?thesis by blast
qed

lemma detectGestureType_known: "detectGestureType lm vel = Some g \<Longrightarrow> knownGesture g"
  by (auto simp: detectGestureType_def knownGesture_def split: Option.bind_splits if_splits)

lemma detect_known:
  assumes "knownGesture (currentGesture s)" and "detect now frame s = (r, s')"
  shows "knownGesture (currentGesture s') \<and> (\<forall>g. r = Some g \<longrightarrow> knownGesture (current g))"
proof (cases frame)
  case None
  with assms show ?thesis
    by (auto simp: detect_def createState_def Let_def knownGesture_def)
next
  case (Some lm)
  with assms show ?thesis
    by (auto simp: detect_def createState_def Let_def
        split: option.splits if_splits dest: detectGestureType_known)
qed

lemma detectAll_known:
  "knownGesture (currentGesture s) \<Longrightarrow> detectAll inputs s = (rs, s') \<Longrightarrow>
     \<forall>r \<in> set rs. \<forall>g. r = Some g \<longrightarrow> knownGesture (current g)"
proof (induction inputs arbitrary: s rs s')
  case Nil
  then show ?case by simp
next
  case (Cons inp inputs)
  obtain now frame where inp: "inp = (now, frame)" by (cases inp)
  obtain r s1 where d: "detect now frame s = (r, s1)" by (cases "detect now frame s")
  obtain rs1 s2 where da: "detectAll inputs s1 = (rs1, s2)" by (cases "detectAll inputs s1")
  from Cons.prems inp d da have rs: "rs = r # rs1" by simp
  from detect_known [OF Cons.prems(1) d]
  have k1: "knownGesture (currentGesture s1)" and k2: "\<forall>g. r = Some g \<longrightarrow> knownGesture (current g)"
    by simp_all
  from Cons.IH [OF k1 da] k2 rs show ?case by simp
qed

text \<open>
  Claim C10. Whatever sequence of frames and clock readings \<^verbatim>\<open>detect\<close> is called with,
  starting from a new detector, every state it returns has a gesture among none, draw,
  pinch, palm and fist; it is never swipe or poke, although \<^verbatim>\<open>GestureType\<close> declares
  both.
\<close>

theorem detect_never_swipe_or_poke:
  "\<forall>inputs. \<forall>r \<in> set (fst (detectAll inputs initialDetector)). \<forall>g. r = Some g \<longrightarrow>
      current g \<in> {None', Draw, Pinch, Palm, Fist} \<and> current g \<noteq> Swipe \<and> current g \<noteq> Poke"
proof (intro allI ballI impI)
  fix inputs r g
  assume r: "r \<in> set (fst (detectAll inputs initialDetector))" and g: "r = Some g"
  obtain rs s' where da: "detectAll inputs initialDetector = (rs, s')"
    by (cases "detectAll inputs initialDetector")
  have "knownGesture (currentGesture initialDetector)"
    by (simp add: knownGesture_def initialDetector_def)
  from detectAll_known [OF this da] r g da have "knownGesture (current g)" by simp
  then show "current g \<in> {None', Draw, Pinch, Palm, Fist} \<and> current g \<noteq> Swipe \<and> current g \<noteq> Poke"
    by (auto simp: knownGesture_def)
qed

lemma detect_pinchFrame_first:
  "detect 1000 (Some pinchFrame) initialDetector =
     (Some \<lparr>current = Pinch, previous = None', duration = 0, velocity = \<lparr>x = 0, y = 0\<rparr>,
            confidence = 1, pinchDistance = Some 0\<rparr>,
      initialDetector\<lparr>lastTime := 1000, previousGesture := None', currentGesture := Pinch,
        gestureStartTime := 1000, lastLandmarks := Some pinchFrame\<rparr>)"
  by (simp add: detect_def calculateVelocity_def detectGestureType_def createState_def
      initialDetector_def landmark_pinchFrame landmark_indices distance_self)

theorem detect_never_swipe_or_poke_witness:
  "Some \<lparr>current = Pinch, previous = None', duration = 0, velocity = \<lparr>x = 0, y = 0\<rparr>,
            confidence = 1, pinchDistance = Some 0\<rparr>
     \<in> set (fst (detectAll [(1000, Some pinchFrame)] initialDetector))
   \<and> current \<lparr>current = Pinch, previous = None', duration = 0, velocity = \<lparr>x = 0, y = 0\<rparr>,
            confidence = 1, pinchDistance = Some 0\<rparr> \<in> {None', Draw, Pinch, Palm, Fist}"
proof -
  have m: "Some \<lparr>current = Pinch, previous = None', duration = 0, velocity = \<lparr>x = 0, y = 0\<rparr>,
            confidence = 1, pinchDistance = Some 0\<rparr>
     \<in> set (fst (detectAll [(1000, Some pinchFrame)] initialDetector))"
    by (simp add: detect_pinchFrame_first)
  from detect_never_swipe_or_poke [rule_format, OF m refl] m show ?thesis by blast
qed

lemma detectGestureType_vel: "detectGestureType lm vel = detectGestureType lm vel'"
  by (simp add: detectGestureType_def)

lemma detect_null:
  "detect now None s =
      (Some \<lparr>current = None', previous = previousGesture s, duration = 0,
             velocity = \<lparr>x = 0, y = 0\<rparr>, confidence = 1, pinchDistance = None\<rparr>,
       s\<lparr>lastTime := now\<rparr>)"
  by (simp add: detect_def createState_def Let_def)

lemma detect_same_gesture:
  assumes "detectGestureType lm \<lparr>x = 0, y = 0\<rparr> = Some (currentGesture s)"
    and "detect now (Some lm) s = (Some r, s')"
  shows "current r = currentGesture s \<and> duration r = now - gestureStartTime s
         \<and> gestureStartTime s' = gestureStartTime s"
proof -
  have g: "\<And>vel. detectGestureType lm vel = Some (currentGesture s)"
    using assms(1) detectGestureType_vel by metis
  from assms(2) show ?thesis
    by (auto simp: detect_def createState_def Let_def g split: option.splits)
qed

text \<open>
  Claim C3, as the code has it. A call of \<^verbatim>\<open>detect\<close> with a \<^verbatim>\<open>null\<close> frame returns gesture
  none, zero velocity and duration 0, and changes nothing in the detector but the time of
  the last call: the current gesture, the previous gesture and the start time of the
  held gesture stay as they were. So when the next frame shows the gesture that was held
  before, the reported duration is counted from the original start time.
\<close>

theorem detect_null_frame_keeps_timers:
  "(\<forall>now (s::GestureDetector). detect now None s =
      (Some \<lparr>current = None', previous = previousGesture s, duration = 0,
             velocity = \<lparr>x = 0, y = 0\<rparr>, confidence = 1, pinchDistance = None\<rparr>,
       s\<lparr>lastTime := now\<rparr>))
   \<and> (\<forall>now now' (s::GestureDetector) lm r s'.
        detectGestureType lm \<lparr>x = 0, y = 0\<rparr> = Some (currentGesture s)
        \<and> detect now' (Some lm) (snd (detect now None s)) = (Some r, s')
        \<longrightarrow> current r = currentGesture s \<and> duration r = now' - gestureStartTime s)"
proof (intro conjI allI impI)
  fix now and s :: GestureDetector
  show "detect now None s =
      (Some \<lparr>current = None', previous = previousGesture s, duration = 0,
             velocity = \<lparr>x = 0, y = 0\<rparr>, confidence = 1, pinchDistance = None\<rparr>,
       s\<lparr>lastTime := now\<rparr>)"
    by (rule detect_null)
next
  fix now now' and s :: GestureDetector and lm r s'
  assume h: "detectGestureType lm \<lparr>x = 0, y = 0\<rparr> = Some (currentGesture s)
        \<and> detect now' (Some lm) (snd (detect now None s)) = (Some r, s')"
  then have "detectGestureType lm \<lparr>x = 0, y = 0\<rparr> = Some (currentGesture (s\<lparr>lastTime := now\<rparr>))"
    and "detect now' (Some lm) (s\<lparr>lastTime := now\<rparr>) = (Some r, s')"
    by (simp_all add: detect_null)
  from detect_same_gesture [OF this]
  have "current r = currentGesture s \<and> duration r = now' - gestureStartTime s" by simp
  then show "current r = currentGesture s" and "duration r = now' - gestureStartTime s"
    by simp_all
qed

lemma getPalmCenter_pinchFrame: "getPalmCenter pinchFrame = Some \<lparr>x = 0, y = 0\<rparr>"
  by (simp add: getPalmCenter_def landmark_pinchFrame landmark_indices)

lemma detect_pinchFrame_after_null:
  "detect 3000 (Some pinchFrame) (snd (detect 2000 None heldPinch)) =
     (Some \<lparr>current = Pinch, previous = None', duration = 2000, velocity = \<lparr>x = 0, y = 0\<rparr>,
            confidence = 1, pinchDistance = Some 0\<rparr>,
      heldPinch\<lparr>lastTime := 3000\<rparr>)"
  by (simp add: detect_null)
     (simp add: detect_def calculateVelocity_def detectGestureType_def createState_def
      heldPinch_def initialDetector_def landmark_pinchFrame landmark_indices distance_self
      getPalmCenter_pinchFrame)

theorem detect_null_frame_keeps_timers_witness:
  "detectGestureType pinchFrame \<lparr>x = 0, y = 0\<rparr> = Some (currentGesture heldPinch)
   \<and> detect 3000 (Some pinchFrame) (snd (detect 2000 None heldPinch)) =
     (Some \<lparr>current = Pinch, previous = None', duration = 2000, velocity = \<lparr>x = 0, y = 0\<rparr>,
            confidence = 1, pinchDistance = Some 0\<rparr>,
      heldPinch\<lparr>lastTime := 3000\<rparr>)
   \<and> duration \<lparr>current = Pinch, previous = None', duration = 2000, velocity = \<lparr>x = 0, y = 0\<rparr>,
            confidence = 1, pinchDistance = Some 0\<rparr> = 3000 - gestureStartTime heldPinch"
proof -
  have a: "detectGestureType pinchFrame \<lparr>x = 0, y = 0\<rparr> = Some (currentGesture heldPinch)"
    by (simp add: detectGestureType_def heldPinch_def landmark_pinchFrame landmark_indices distance_self)
  note b = detect_pinchFrame_after_null
  from detect_null_frame_keeps_timers [THEN conjunct2, rule_format, OF conjI [OF a b]] a b
  show ?thesis by blast
qed

text \<open>
  The timers are not reset: a pinch first seen at time 1000, a \<^verbatim>\<open>null\<close> frame at 2000 and
  the same pinch at 3000 give a reported duration of 2000, and the start time kept by the
  detector after the \<^verbatim>\<open>null\<close> frame is still 1000.
\<close>

theorem detect_null_frame_counterexample:
  "fst (detect 1000 (Some pinchFrame) initialDetector) =
      Some \<lparr>current = Pinch, previous = None', duration = 0, velocity = \<lparr>x = 0, y = 0\<rparr>,
            confidence = 1, pinchDistance = Some 0\<rparr>
   \<and> gestureStartTime (snd (detect 2000 None (snd (detect 1000 (Some pinchFrame) initialDetector))))
      = 1000
   \<and> currentGesture (snd (detect 2000 None (snd (detect 1000 (Some pinchFrame) initialDetector))))
      = Pinch
   \<and> fst (detect 3000 (Some pinchFrame)
        (snd (detect 2000 None (snd (detect 1000 (Some pinchFrame) initialDetector))))) =
      Some \<lparr>current = Pinch, previous = None', duration = 2000, velocity = \<lparr>x = 0, y = 0\<rparr>,
            confidence = 1, pinchDistance = Some 0\<rparr>"
proof -
  have s1: "snd (detect 1000 (Some pinchFrame) initialDetector) = heldPinch"
    by (simp add: detect_pinchFrame_first heldPinch_def)
  have s2: "snd (detect 2000 None heldPinch) = heldPinch\<lparr>lastTime := 2000\<rparr>"
    by (simp add: detect_null)
  have a: "gestureStartTime (heldPinch\<lparr>lastTime := 2000\<rparr>) = 1000"
    and b: "currentGesture (heldPinch\<lparr>lastTime := 2000\<rparr>) = Pinch"
    by (simp_all add: heldPinch_def)
  have c: "fst (detect 3000 (Some pinchFrame) (snd (detect 2000 None heldPinch))) =
      Some \<lparr>current = Pinch, previous = None', duration = 2000, velocity = \<lparr>x = 0, y = 0\<rparr>,
            confidence = 1, pinchDistance = Some 0\<rparr>"
    by (simp only: detect_pinchFrame_after_null fst_conv)
  have d: "fst (detect 1000 (Some pinchFrame) initialDetector) =
      Some \<lparr>current = Pinch, previous = None', duration = 0, velocity = \<lparr>x = 0, y = 0\<rparr>,
            confidence = 1, pinchDistance = Some 0\<rparr>"
    by (simp only: detect_pinchFrame_first fst_conv)
  from a b c d show ?thesis by (simp only: s1 s2)
qed

section \<open>Stroke capture: spacing of the polyline\<close>

lemma wellSpaced_append:
  "wellSpaced (ps @ [q]) \<longleftrightarrow>
     wellSpaced ps \<and> (ps \<noteq> [] \<longrightarrow> STROKE_MIN_POINT_DISTANCE \<le> distance q (last ps))"
  by (induction ps rule: wellSpaced.induct) auto

lemma wellSpaced_nth:
  "wellSpaced ps \<Longrightarrow> Suc i < length ps \<Longrightarrow>
     STROKE_MIN_POINT_DISTANCE \<le> distance (ps ! Suc i) (ps ! i)"
proof (induction ps arbitrary: i rule: wellSpaced.induct)
  case (1 p q ps)
  then show ?case by (cases i) auto
qed simp_all

lemma length_pushRecent: "length buf \<le> 10 \<Longrightarrow> length (pushRecent f buf) \<le> 10"
  by (auto simp: pushRecent_def Let_def)

lemma applyJitterFilter_fields:
  "currentStroke (snd (applyJitterFilter p s)) = currentStroke s"
  "completedStrokes (snd (applyJitterFilter p s)) = completedStrokes s"
  "recentPoints (snd (applyJitterFilter p s)) = recentPoints s"
  by (auto simp: applyJitterFilter_def split: option.splits)

lemma addPoint_Some:
  assumes "currentStroke s = Some st" and "points st \<noteq> []"
  shows "\<exists>s'. addPoint p s = Some s'
      \<and> completedStrokes s' = completedStrokes s
      \<and> recentPoints s' = pushRecent (fst (applyJitterFilter p s)) (recentPoints s)
      \<and> filteredPosition s' = filteredPosition (snd (applyJitterFilter p s))
      \<and> livePosition s' = Some (getSmoothedPosition s')
      \<and> (\<exists>st'. currentStroke s' = Some st' \<and>
            (points st' = points st \<or>
             (\<exists>q. points st' = points st @ [q]
                \<and> STROKE_MIN_POINT_DISTANCE \<le> distance q (last (points st)))))"
proof -
  obtain f s1 where aj: "applyJitterFilter p s = (f, s1)" by (cases "applyJitterFilter p s")
  have s1: "currentStroke s1 = currentStroke s" "completedStrokes s1 = completedStrokes s"
    "recentPoints s1 = recentPoints s"
    using applyJitterFilter_fields [of p s] aj by simp_all
  have l: "points st ! (length (points st) - 1) = last (points st)"
    using assms(2) by (simp add: last_conv_nth)
  show ?thesis
    using assms aj s1 l
    by (auto simp: addPoint_def Let_def getSmoothedPosition_def)
qed

lemma canvasInv_addPoint:
  assumes "canvasInv s"
  shows "\<exists>s'. addPoint p s = Some s' \<and> canvasInv s'"
proof (cases "currentStroke s")
  case None
  with assms show ?thesis by (simp add: addPoint_def)
next
  case (Some st)
  with assms have ne: "points st \<noteq> []" and ws: "wellSpaced (points st)"
    by (simp_all add: canvasInv_def)
  from addPoint_Some [OF Some ne, of p] obtain s' st' where
    a: "addPoint p s = Some s'" and c: "completedStrokes s' = completedStrokes s"
    and r: "recentPoints s' = pushRecent (fst (applyJitterFilter p s)) (recentPoints s)"
    and cs: "currentStroke s' = Some st'"
    and pts: "points st' = points st \<or>
             (\<exists>q. points st' = points st @ [q]
                \<and> STROKE_MIN_POINT_DISTANCE \<le> distance q (last (points st)))"
    by blast
  from pts ne ws have "points st' \<noteq> [] \<and> wellSpaced (points st')"
    by (auto simp: wellSpaced_append)
  with assms a c r cs show ?thesis
    by (auto simp: canvasInv_def length_pushRecent)
qed

lemma canvasInv_updateLivePosition: "canvasInv s \<Longrightarrow> canvasInv (updateLivePosition p s)"
proof -
  assume inv: "canvasInv s"
  obtain f s1 where aj: "applyJitterFilter p s = (f, s1)" by (cases "applyJitterFilter p s")
  have "currentStroke s1 = currentStroke s" "completedStrokes s1 = completedStrokes s"
    "recentPoints s1 = recentPoints s"
    using applyJitterFilter_fields [of p s] aj by simp_all
  with inv aj show ?thesis
    by (simp add: updateLivePosition_def canvasInv_def Let_def length_pushRecent)
qed

lemma canvasInv_closeStroke:
  assumes "canvasInv s" and "closeStroke s = (r, s')"
  shows "canvasInv s' \<and> (\<forall>st. r = Some st \<longrightarrow> finished st)"
  using assms
  by (auto simp: closeStroke_def canvasInv_def discardStroke_def Let_def finished_def
      split: option.splits if_splits)

lemma list_all_remove1: "list_all P xs \<Longrightarrow> list_all P (remove1 a xs)"
  by (induction xs) auto

lemma canvasInv_step:
  assumes "canvasInv s"
  shows "\<exists>outs s'. canvasStep opn s = Some (outs, s') \<and> canvasInv s' \<and> list_all finished outs"
proof (cases opn)
  case (AddPoint p)
  with canvasInv_addPoint [OF assms, of p] show ?thesis by auto
next
  case CloseStroke
  obtain r s' where c: "closeStroke s = (r, s')" by (cases "closeStroke s")
  from canvasInv_closeStroke [OF assms c] c CloseStroke show ?thesis
    by (cases r) auto
next
  case (UpdateLivePosition p)
  with canvasInv_updateLivePosition [OF assms] show ?thesis by simp
next
  case (RemoveCompletedStroke st)
  with assms show ?thesis
    by (simp add: canvasInv_def removeCompletedStroke_def list_all_remove1)
qed (use assms in \<open>simp_all add: canvasInv_def startStroke_def clearLivePosition_def
      pauseStroke_def discardStroke_def clearAll_def\<close>)

lemma canvasInv_run:
  "canvasInv s \<Longrightarrow>
     \<exists>outs s'. runCanvas ops s = Some (outs, s') \<and> canvasInv s' \<and> list_all finished outs"
proof (induction ops arbitrary: s)
  case Nil
  then show ?case by simp
next
  case (Cons opn ops)
  from canvasInv_step [OF Cons.prems, of opn] obtain out1 s1 where
    st: "canvasStep opn s = Some (out1, s1)" and i1: "canvasInv s1" and f1: "list_all finished out1"
    by blast
  from Cons.IH [OF i1] obtain out2 s2 where
    r: "runCanvas ops s1 = Some (out2, s2)" and i2: "canvasInv s2" and f2: "list_all finished out2"
    by blast
  from st r i2 f1 f2 show ?case by simp
qed

lemma canvasInv_initial: "canvasInv initialCanvas"
  by (simp add: canvasInv_def initialCanvas_def)

text \<open>
  Claim C6. After any sequence of canvas operations from the initial state, no operation
  has raised, and every stroke that \<^verbatim>\<open>closeStroke\<close> returned or that is kept among the
  completed strokes is closed and has each point at a distance of at least
  \<^verbatim>\<open>STROKE.MIN_POINT_DISTANCE\<close> from the point before it in the polyline. The number of
  samples and their positions are arbitrary, so the sampling rate does not matter.
\<close>

theorem finished_strokes_keep_spacing:
  "\<forall>ops. \<exists>outs s'. runCanvas ops initialCanvas = Some (outs, s')
      \<and> (\<forall>st \<in> set outs \<union> set (completedStrokes s'). closed' st
            \<and> (\<forall>i. Suc i < length (points st) \<longrightarrow>
                  STROKE_MIN_POINT_DISTANCE \<le> distance (points st ! Suc i) (points st ! i)))"
proof
  fix ops
  from canvasInv_run [OF canvasInv_initial, of ops] obtain outs s' where
    r: "runCanvas ops initialCanvas = Some (outs, s')" and i: "canvasInv s'"
    and f: "list_all finished outs"
    by blast
  from i have "list_all finished (completedStrokes s')"
    by (simp add: canvasInv_def)
  with f have "\<forall>st \<in> set outs \<union> set (completedStrokes s'). finished st"
    by (auto simp: list_all_iff)
  then have "\<forall>st \<in> set outs \<union> set (completedStrokes s'). closed' st
            \<and> (\<forall>i. Suc i < length (points st) \<longrightarrow>
                  STROKE_MIN_POINT_DISTANCE \<le> distance (points st ! Suc i) (points st ! i))"
    by (auto simp: finished_def wellSpaced_nth)
  with r show "\<exists>outs s'. runCanvas ops initialCanvas = Some (outs, s')
      \<and> (\<forall>st \<in> set outs \<union> set (completedStrokes s'). closed' st
            \<and> (\<forall>i. Suc i < length (points st) \<longrightarrow>
                  STROKE_MIN_POINT_DISTANCE \<le> distance (points st ! Suc i) (points st ! i)))"
    by blast
qed

lemma runCanvas_threeSteps:
  "runCanvas threeSteps initialCanvas =
     Some ([threeStepsStroke],
       \<lparr>currentStroke = None, completedStrokes = [threeStepsStroke],
        livePosition = Some \<lparr>x = 100, y = 0\<rparr>, filteredPosition = Some \<lparr>x = 200, y = 0\<rparr>,
        recentPoints = [\<lparr>x = 0, y = 0\<rparr>, \<lparr>x = 100, y = 0\<rparr>, \<lparr>x = 200, y = 0\<rparr>]\<rparr>)"
  by (simp add: threeSteps_def threeStepsStroke_def initialCanvas_def startStroke_def addPoint_def
      applyJitterFilter_def pushRecent_def getSmoothedPosition_def closeStroke_def
      calculateStrokeLength_def distance_same_y Let_def upt_conv_Cons
      JITTER_THRESHOLD_def STROKE_MIN_POINT_DISTANCE_def GESTURE_MIN_STROKE_LENGTH_def)

theorem finished_strokes_keep_spacing_witness:
  "runCanvas threeSteps initialCanvas \<noteq> None
   \<and> threeStepsStroke \<in> set (fst (the (runCanvas threeSteps initialCanvas)))
   \<and> Suc 0 < length (points threeStepsStroke)
   \<and> closed' threeStepsStroke
   \<and> STROKE_MIN_POINT_DISTANCE \<le> distance (points threeStepsStroke ! Suc 0) (points threeStepsStroke ! 0)"
proof -
  from finished_strokes_keep_spacing [rule_format, of threeSteps] obtain outs s' where
    r: "runCanvas threeSteps initialCanvas = Some (outs, s')"
    and p: "\<forall>st \<in> set outs \<union> set (completedStrokes s'). closed' st
            \<and> (\<forall>i. Suc i < length (points st) \<longrightarrow>
                  STROKE_MIN_POINT_DISTANCE \<le> distance (points st ! Suc i) (points st ! i))"
    by blast
  from r have m: "threeStepsStroke \<in> set outs" by (auto simp: runCanvas_threeSteps)
  have l: "Suc 0 < length (points threeStepsStroke)" by (simp add: threeStepsStroke_def)
  from p m l have "closed' threeStepsStroke
     \<and> STROKE_MIN_POINT_DISTANCE \<le> distance (points threeStepsStroke ! Suc 0) (points threeStepsStroke ! 0)"
    by blast
  with r m l show ?thesis by simp
qed

section \<open>Stroke capture: smoothing\<close>

lemma getSmoothedPosition_mean:
  "recentPoints s \<noteq> [] \<Longrightarrow> getSmoothedPosition s = mean (recentPoints s)"
  by (simp add: getSmoothedPosition_def mean_def foldl_add_sum_list Let_def)

lemma tl_drop_one: "tl xs = drop (Suc 0) xs"
  by (cases xs) simp_all

lemma pushRecent_lastN: "length buf \<le> 10 \<Longrightarrow> pushRecent f buf = lastN 10 (buf @ [f])"
proof (cases "length buf = 10")
  case True
  have "tl (buf @ [f]) = drop (Suc 0) (buf @ [f])" by (rule tl_drop_one)
  with True show ?thesis by (simp add: pushRecent_def lastN_def Let_def)
next
  case False
  moreover assume "length buf \<le> 10"
  ultimately show ?thesis by (simp add: pushRecent_def lastN_def Let_def)
qed

lemma pushRecent_nonempty: "length buf \<le> 10 \<Longrightarrow> pushRecent f buf \<noteq> []"
  by (cases buf) (auto simp: pushRecent_def Let_def)

lemma lastN_lastN_append: "lastN n (lastN n xs @ ys) = lastN n (xs @ ys)"
proof (cases "n \<le> length xs")
  case True
  then have "length xs + length ys - (length xs - n + n) + (length xs - n)
      = length xs + length ys - n"
    by simp
  with True show ?thesis by (simp add: lastN_def)
next
  case False
  then show ?thesis by (simp add: lastN_def)
qed

lemma lastN_replicate: "length xs \<le> n \<Longrightarrow> lastN n (xs @ replicate n a) = replicate n a"
  by (simp add: lastN_def)

lemma applyJitterFilter_fst:
  "fst (applyJitterFilter p s) =
     (case filteredPosition s of None \<Rightarrow> p
      | Some q \<Rightarrow> if distance p q < JITTER_THRESHOLD then q else p)"
  by (simp add: applyJitterFilter_def split: option.splits)

lemma applyJitterFilter_settles:
  "filteredPosition (snd (applyJitterFilter p s)) = Some (fst (applyJitterFilter p s))
   \<and> distance p (fst (applyJitterFilter p s)) < JITTER_THRESHOLD"
  by (auto simp: applyJitterFilter_def distance_self JITTER_THRESHOLD_def split: option.splits)

lemma applyJitterFilter_settled:
  "filteredPosition s = Some f \<Longrightarrow> distance p f < JITTER_THRESHOLD \<Longrightarrow>
     applyJitterFilter p s = (f, s)"
  by (simp add: applyJitterFilter_def)

text \<open>One call of addPoint on a stroke in progress.\<close>

lemma addPoint_smoothed:
  assumes "canvasInv s" and "currentStroke s \<noteq> None"
  shows "\<exists>s'. addPoint p s = Some s' \<and> canvasInv s' \<and> currentStroke s' \<noteq> None
      \<and> recentPoints s' = lastN 10 (recentPoints s @ [fst (applyJitterFilter p s)])
      \<and> 1 \<le> length (recentPoints s') \<and> length (recentPoints s') \<le> 10
      \<and> filteredPosition s' = Some (fst (applyJitterFilter p s))
      \<and> livePosition s' = Some (mean (recentPoints s'))"
proof -
  from assms obtain st where cur: "currentStroke s = Some st" by auto
  with assms(1) have ne: "points st \<noteq> []" and len: "length (recentPoints s) \<le> 10"
    by (simp_all add: canvasInv_def)
  from canvasInv_addPoint [OF assms(1), of p] obtain s' where
    a: "addPoint p s = Some s'" and inv: "canvasInv s'"
    by blast
  from addPoint_Some [OF cur ne, of p] a have
    r: "recentPoints s' = pushRecent (fst (applyJitterFilter p s)) (recentPoints s)"
    and fp: "filteredPosition s' = filteredPosition (snd (applyJitterFilter p s))"
    and lp: "livePosition s' = Some (getSmoothedPosition s')"
    and cs: "currentStroke s' \<noteq> None"
    by auto
  from r len have ne': "recentPoints s' \<noteq> []" by (simp add: pushRecent_nonempty)
  then have l1: "1 \<le> length (recentPoints s')" by (cases "recentPoints s'") simp_all
  from inv have l2: "length (recentPoints s') \<le> 10" by (simp add: canvasInv_def)
  from a inv cs r len l1 l2 fp lp ne' show ?thesis
    by (simp add: pushRecent_lastN getSmoothedPosition_mean applyJitterFilter_settles)
qed

text \<open>The point that addPoint appends to the polyline is the smoothed point.\<close>

lemma addPoint_appended:
  assumes "currentStroke s = Some st" and "points st \<noteq> []" and "addPoint p s = Some s'"
  shows "currentStroke s' =
     Some (st\<lparr>points :=
        (if STROKE_MIN_POINT_DISTANCE \<le> distance (getSmoothedPosition s') (last (points st))
         then points st @ [getSmoothedPosition s'] else points st)\<rparr>)"
proof -
  obtain f s1 where aj: "applyJitterFilter p s = (f, s1)" by (cases "applyJitterFilter p s")
  have s1: "currentStroke s1 = currentStroke s"
    using applyJitterFilter_fields [of p s] aj by simp
  have l: "points st ! (length (points st) - 1) = last (points st)"
    using assms(2) by (simp add: last_conv_nth)
  show ?thesis
    using assms aj s1 l
    by (auto simp: addPoint_def Let_def getSmoothedPosition_def split: if_splits)
qed

lemma updateLivePosition_smoothed:
  assumes "length (recentPoints s) \<le> 10"
  shows "recentPoints (updateLivePosition p s)
       = lastN 10 (recentPoints s @ [fst (applyJitterFilter p s)])"
    and "livePosition (updateLivePosition p s)
       = Some (mean (recentPoints (updateLivePosition p s)))"
proof -
  obtain f s1 where aj: "applyJitterFilter p s = (f, s1)" by (cases "applyJitterFilter p s")
  have s1: "recentPoints s1 = recentPoints s"
    using applyJitterFilter_fields [of p s] aj by simp
  have r: "recentPoints (updateLivePosition p s) = pushRecent f (recentPoints s)"
    using aj s1 by (simp add: updateLivePosition_def Let_def)
  with assms aj show "recentPoints (updateLivePosition p s)
       = lastN 10 (recentPoints s @ [fst (applyJitterFilter p s)])"
    by (simp add: pushRecent_lastN)
  have ne: "recentPoints (updateLivePosition p s) \<noteq> []"
    using r assms by (simp add: pushRecent_nonempty)
  have "livePosition (updateLivePosition p s) = Some (getSmoothedPosition (updateLivePosition p s))"
    using aj by (simp add: updateLivePosition_def Let_def getSmoothedPosition_def)
  with ne show "livePosition (updateLivePosition p s)
       = Some (mean (recentPoints (updateLivePosition p s)))"
    by (simp add: getSmoothedPosition_mean)
qed

text \<open>Repeated calls with a point that the filter maps to the position it already holds.\<close>

lemma addPoint_repeated:
  assumes "canvasInv s" and "currentStroke s \<noteq> None"
    and "filteredPosition s = Some f" and "distance p f < JITTER_THRESHOLD"
  shows "\<exists>s'. runCanvas (replicate n (AddPoint p)) s = Some ([], s')
      \<and> canvasInv s' \<and> currentStroke s' \<noteq> None \<and> filteredPosition s' = Some f
      \<and> recentPoints s' = lastN 10 (recentPoints s @ replicate n f)
      \<and> (0 < n \<longrightarrow> livePosition s' = Some (mean (recentPoints s')))"
  using assms
proof (induction n arbitrary: s)
  case 0
  then show ?case by (simp add: lastN_def canvasInv_def)
next
  case (Suc n)
  have f: "fst (applyJitterFilter p s) = f"
    using applyJitterFilter_settled [OF Suc.prems(3,4)] by simp
  from addPoint_smoothed [OF Suc.prems(1,2), of p] f obtain s1 where
    a: "addPoint p s = Some s1" and inv: "canvasInv s1" and cs: "currentStroke s1 \<noteq> None"
    and r: "recentPoints s1 = lastN 10 (recentPoints s @ [f])"
    and fp: "filteredPosition s1 = Some f"
    and lp: "livePosition s1 = Some (mean (recentPoints s1))"
    by auto
  from Suc.IH [OF inv cs fp Suc.prems(4)] obtain s2 where
    run: "runCanvas (replicate n (AddPoint p)) s1 = Some ([], s2)"
    and inv2: "canvasInv s2" and cs2: "currentStroke s2 \<noteq> None"
    and fp2: "filteredPosition s2 = Some f"
    and r2: "recentPoints s2 = lastN 10 (recentPoints s1 @ replicate n f)"
    and lp2: "0 < n \<longrightarrow> livePosition s2 = Some (mean (recentPoints s2))"
    by blast
  have r3: "recentPoints s2 = lastN 10 (recentPoints s @ replicate (Suc n) f)"
    using r r2 by (simp add: lastN_lastN_append replicate_app_Cons_same)
  have lp3: "livePosition s2 = Some (mean (recentPoints s2))"
  proof (cases n)
    case 0
    with run have "s2 = s1" by simp
    with lp show ?thesis by simp
  next
    case (Suc m)
    with lp2 show ?thesis by simp
  qed
  from a run inv2 cs2 fp2 r3 lp3 show ?case by simp
qed

lemma addPoint_ten_times:
  assumes "canvasInv s" and "currentStroke s \<noteq> None"
  shows "\<exists>s'. runCanvas (replicate 10 (AddPoint p)) s = Some ([], s')
      \<and> recentPoints s' = replicate 10 (fst (applyJitterFilter p s))
      \<and> livePosition s' = Some (mean (recentPoints s'))"
proof -
  let ?f = "fst (applyJitterFilter p s)"
  from addPoint_smoothed [OF assms, of p] obtain s1 where
    a: "addPoint p s = Some s1" and inv: "canvasInv s1" and cs: "currentStroke s1 \<noteq> None"
    and r: "recentPoints s1 = lastN 10 (recentPoints s @ [?f])"
    and fp: "filteredPosition s1 = Some ?f"
    by blast
  have d: "distance p ?f < JITTER_THRESHOLD"
    using applyJitterFilter_settles by blast
  from addPoint_repeated [OF inv cs fp d, of 9] obtain s2 where
    run: "runCanvas (replicate 9 (AddPoint p)) s1 = Some ([], s2)"
    and r2: "recentPoints s2 = lastN 10 (recentPoints s1 @ replicate 9 ?f)"
    and lp2: "livePosition s2 = Some (mean (recentPoints s2))"
    by auto
  have len: "length (recentPoints s) \<le> 10" using assms(1) by (simp add: canvasInv_def)
  have "recentPoints s1 @ replicate 9 ?f = lastN 10 (recentPoints s @ [?f]) @ replicate 9 ?f"
    using r by simp
  then have "recentPoints s2 = lastN 10 (recentPoints s @ [?f] @ replicate 9 ?f)"
    using r2 by (simp add: lastN_lastN_append)
  also have "[?f] @ replicate 9 ?f = replicate 10 ?f"
    by (simp add: numeral_eq_Suc)
  finally have r3: "recentPoints s2 = replicate 10 ?f"
    using len by (simp add: lastN_replicate)
  have ten: "replicate 10 (AddPoint p) = AddPoint p # replicate 9 (AddPoint p)"
    by (simp add: numeral_eq_Suc)
  from a run have "runCanvas (replicate 10 (AddPoint p)) s = Some ([], s2)"
    by (simp add: ten)
  with r3 lp2 show ?thesis by simp
qed

lemma runCanvas_reaches: "runCanvas ops initialCanvas = Some (outs, s) \<Longrightarrow> canvasInv s"
  using canvasInv_run [OF canvasInv_initial, of ops] by auto

text \<open>
  Claim C5, as the code has it. In any state reached from the initial one with a stroke
  in progress, \<^verbatim>\<open>addPoint\<close> does not raise, the buffer afterwards holds the last 10 (or
  fewer) points of the old buffer followed by the jitter-filtered point \<open>f\<close>, the live
  (smoothed) position is the arithmetic mean of that buffer, and the point appended to
  the polyline, when the spacing lets one in, is that mean. \<^verbatim>\<open>updateLivePosition\<close> fills
  the buffer and sets the live position in the same way. Ten calls of \<^verbatim>\<open>addPoint\<close> with
  the same raw point leave the buffer filled with ten copies of \<open>f\<close> and the smoothed
  position at the mean of these ten copies; \<open>f\<close> is the raw point when no filtered
  position is held or the raw point lies at least \<^verbatim>\<open>JITTER_THRESHOLD\<close> away from it,
  and the held filtered position otherwise.
\<close>

theorem smoothing_is_buffer_mean:
  "\<forall>ops outs s st p. runCanvas ops initialCanvas = Some (outs, s) \<and> currentStroke s = Some st \<longrightarrow>
     (let f = (case filteredPosition s of None \<Rightarrow> p
               | Some q \<Rightarrow> if distance p q < JITTER_THRESHOLD then q else p)
      in (\<exists>s'. addPoint p s = Some s'
            \<and> recentPoints s' = lastN 10 (recentPoints s @ [f])
            \<and> 1 \<le> length (recentPoints s') \<and> length (recentPoints s') \<le> 10
            \<and> livePosition s' = Some (mean (recentPoints s'))
            \<and> currentStroke s' =
                Some (st\<lparr>points :=
                  (if STROKE_MIN_POINT_DISTANCE \<le> distance (mean (recentPoints s')) (last (points st))
                   then points st @ [mean (recentPoints s')] else points st)\<rparr>))
       \<and> recentPoints (updateLivePosition p s) = lastN 10 (recentPoints s @ [f])
       \<and> livePosition (updateLivePosition p s)
            = Some (mean (recentPoints (updateLivePosition p s)))
       \<and> (\<exists>s'. runCanvas (replicate 10 (AddPoint p)) s = Some ([], s')
            \<and> recentPoints s' = replicate 10 f
            \<and> livePosition s' = Some (mean (recentPoints s'))))"
proof (intro allI impI)
  fix ops outs s st p
  assume h: "runCanvas ops initialCanvas = Some (outs, s) \<and> currentStroke s = Some st"
  then have inv: "canvasInv s" and cur: "currentStroke s = Some st"
    using runCanvas_reaches by blast+
  from cur have cs: "currentStroke s \<noteq> None" by simp
  from inv cur have ne: "points st \<noteq> []" and len: "length (recentPoints s) \<le> 10"
    by (simp_all add: canvasInv_def)
  from addPoint_smoothed [OF inv cs, of p] obtain s' where
    a: "addPoint p s = Some s'"
    and r: "recentPoints s' = lastN 10 (recentPoints s @ [fst (applyJitterFilter p s)])"
    and l1: "1 \<le> length (recentPoints s')" and l2: "length (recentPoints s') \<le> 10"
    and lp: "livePosition s' = Some (mean (recentPoints s'))"
    by blast
  from l1 have "recentPoints s' \<noteq> []" by auto
  then have g: "getSmoothedPosition s' = mean (recentPoints s')"
    by (rule getSmoothedPosition_mean)
  from addPoint_appended [OF cur ne a] g
  have ap: "currentStroke s' =
      Some (st\<lparr>points :=
        (if STROKE_MIN_POINT_DISTANCE \<le> distance (mean (recentPoints s')) (last (points st))
         then points st @ [mean (recentPoints s')] else points st)\<rparr>)"
    by simp
  from a r l1 l2 lp ap
  have one: "\<exists>s'. addPoint p s = Some s'
            \<and> recentPoints s' = lastN 10 (recentPoints s @ [fst (applyJitterFilter p s)])
            \<and> 1 \<le> length (recentPoints s') \<and> length (recentPoints s') \<le> 10
            \<and> livePosition s' = Some (mean (recentPoints s'))
            \<and> currentStroke s' =
                Some (st\<lparr>points :=
                  (if STROKE_MIN_POINT_DISTANCE \<le> distance (mean (recentPoints s')) (last (points st))
                   then points st @ [mean (recentPoints s')] else points st)\<rparr>)"
    by blast
  from one updateLivePosition_smoothed [OF len, of p] addPoint_ten_times [OF inv cs, of p]
  show "let f = (case filteredPosition s of None \<Rightarrow> p
               | Some q \<Rightarrow> if distance p q < JITTER_THRESHOLD then q else p)
      in (\<exists>s'. addPoint p s = Some s'
            \<and> recentPoints s' = lastN 10 (recentPoints s @ [f])
            \<and> 1 \<le> length (recentPoints s') \<and> length (recentPoints s') \<le> 10
            \<and> livePosition s' = Some (mean (recentPoints s'))
            \<and> currentStroke s' =
                Some (st\<lparr>points :=
                  (if STROKE_MIN_POINT_DISTANCE \<le> distance (mean (recentPoints s')) (last (points st))
                   then points st @ [mean (recentPoints s')] else points st)\<rparr>))
       \<and> recentPoints (updateLivePosition p s) = lastN 10 (recentPoints s @ [f])
       \<and> livePosition (updateLivePosition p s)
            = Some (mean (recentPoints (updateLivePosition p s)))
       \<and> (\<exists>s'. runCanvas (replicate 10 (AddPoint p)) s = Some ([], s')
            \<and> recentPoints s' = replicate 10 f
            \<and> livePosition s' = Some (mean (recentPoints s')))"
    unfolding Let_def applyJitterFilter_fst [symmetric] by blast
qed

lemma runCanvas_started:
  "runCanvas [StartStroke \<lparr>x = 0, y = 0\<rparr> ''#FFB3BA''] initialCanvas = Some ([], started)"
  by (simp add: started_def)

lemma currentStroke_started:
  "currentStroke started =
     Some \<lparr>points = [\<lparr>x = 0, y = 0\<rparr>], color = ''#FFB3BA'', width = STROKE_WIDTH, closed' = False\<rparr>"
  by (simp add: started_def startStroke_def)

theorem smoothing_is_buffer_mean_witness:
  "runCanvas [StartStroke \<lparr>x = 0, y = 0\<rparr> ''#FFB3BA''] initialCanvas = Some ([], started)
   \<and> currentStroke started =
     Some \<lparr>points = [\<lparr>x = 0, y = 0\<rparr>], color = ''#FFB3BA'', width = STROKE_WIDTH, closed' = False\<rparr>
   \<and> runCanvas (replicate 10 (AddPoint \<lparr>x = 100, y = 0\<rparr>)) started \<noteq> None
   \<and> recentPoints (snd (the (runCanvas (replicate 10 (AddPoint \<lparr>x = 100, y = 0\<rparr>)) started)))
       = replicate 10 \<lparr>x = 100, y = 0\<rparr>
   \<and> livePosition (snd (the (runCanvas (replicate 10 (AddPoint \<lparr>x = 100, y = 0\<rparr>)) started)))
       = Some (mean (replicate 10 \<lparr>x = 100, y = 0\<rparr>))
   \<and> recentPoints (updateLivePosition \<lparr>x = 100, y = 0\<rparr> started)
       = lastN 10 (recentPoints started @ [\<lparr>x = 100, y = 0\<rparr>])"
proof -
  have f: "(case filteredPosition started of None \<Rightarrow> \<lparr>x = 100, y = 0\<rparr>
       | Some q \<Rightarrow> if distance \<lparr>x = 100, y = 0\<rparr> q < JITTER_THRESHOLD then q else \<lparr>x = 100, y = 0\<rparr>)
       = \<lparr>x = 100, y = 0\<rparr>"
    by (simp add: started_def startStroke_def distance_same_y JITTER_THRESHOLD_def)
  from smoothing_is_buffer_mean [rule_format, OF conjI [OF runCanvas_started currentStroke_started],
      of "\<lparr>x = 100, y = 0\<rparr>"]
  show ?thesis
    unfolding Let_def f using runCanvas_started currentStroke_started by auto
qed

text \<open>
  Ten identical raw points need not bring the smoothed position to that point: after a
  stroke started at the origin, ten samples at distance 1 from it are all replaced by the
  origin, and the smoothed position stays at the origin.
\<close>

theorem smoothing_identical_points_counterexample:
  "runCanvas (replicate 10 (AddPoint \<lparr>x = 1, y = 0\<rparr>)) started \<noteq> None
   \<and> recentPoints (snd (the (runCanvas (replicate 10 (AddPoint \<lparr>x = 1, y = 0\<rparr>)) started)))
       = replicate 10 \<lparr>x = 0, y = 0\<rparr>
   \<and> livePosition (snd (the (runCanvas (replicate 10 (AddPoint \<lparr>x = 1, y = 0\<rparr>)) started)))
       = Some \<lparr>x = 0, y = 0\<rparr>
   \<and> livePosition (snd (the (runCanvas (replicate 10 (AddPoint \<lparr>x = 1, y = 0\<rparr>)) started)))
       \<noteq> Some \<lparr>x = 1, y = 0\<rparr>"
proof -
  have inv: "canvasInv started"
    using runCanvas_reaches [OF runCanvas_started] .
  have cs: "currentStroke started \<noteq> None" by (simp add: currentStroke_started)
  have f: "fst (applyJitterFilter \<lparr>x = 1, y = 0\<rparr> started) = \<lparr>x = 0, y = 0\<rparr>"
    by (simp add: applyJitterFilter_fst started_def startStroke_def distance_same_y
        JITTER_THRESHOLD_def)
  have m: "mean (replicate 10 \<lparr>x = 0, y = 0\<rparr>) = \<lparr>x = 0, y = 0\<rparr>"
    by (simp add: mean_def sum_list_replicate)
  from addPoint_ten_times [OF inv cs, of "\<lparr>x = 1, y = 0\<rparr>"]
  show ?thesis unfolding f using m by auto
qed

section \<open>Curve fitting\<close>

lemma simplifyPoints_short: "length pts \<le> n \<Longrightarrow> simplifyPoints pts n = pts"
  by (simp add: simplifyPoints_def)

lemma length_simplifyPoints: "length (simplifyPoints pts n) = min (length pts) n"
  by (simp add: simplifyPoints_def Let_def)

lemma unit_circle_closes: "arcPoint 0 0 1 0 (pi * 2) 0 = arcPoint 0 0 1 0 (pi * 2) 1"
proof -
  have "cos (pi * 2) = 1" and "sin (pi * 2) = 0"
    using cos_two_pi sin_two_pi by (simp_all add: mult.commute)
  then show ?thesis by (simp add: arcPoint_def)
qed

lemma unit_circle_radius: "distance (arcPoint 0 0 1 0 (pi * 2) t) \<lparr>x = 0, y = 0\<rparr> = 1"
proof -
  have "cos (t * (pi * 2)) * cos (t * (pi * 2)) + sin (t * (pi * 2)) * sin (t * (pi * 2)) = 1"
    using sin_cos_squared_add2 [of "t * (pi * 2)"] by (simp add: power2_eq_square)
  then show ?thesis by (simp add: arcPoint_def distance_def)
qed

lemma createShape_closed:
  assumes "\<forall>cs. sampleCurve cs \<noteq> []"
  shows "\<exists>sh. createShape sampleCurve pts = Some sh \<and> closedShape sh"
proof (cases "length pts < 3")
  case True
  then show ?thesis by (simp add: createShape_def unit_circle_closes)
next
  case False
  let ?sp = "sampleCurve (map (\<lambda>p. \<lparr>x = x p, y = y p, z = 0\<rparr>)
      (map (\<lambda>p. \<lparr>x = (x p - x (getStrokeCenter pts)) / 50,
                 y = - (y p - y (getStrokeCenter pts)) / 50\<rparr>) pts))"
  let ?sh = "MoveTo (x (?sp ! 0)) (y (?sp ! 0))
      # map (\<lambda>i. LineTo (x (?sp ! i)) (y (?sp ! i))) [1 ..< length ?sp] @ [ClosePath]"
  from assms have ne: "?sp \<noteq> []" by blast
  with False have c: "createShape sampleCurve pts = Some ?sh"
    by (simp add: createShape_def Let_def)
  have "closedShape ?sh"
    by (cases "map (\<lambda>i. LineTo (x (?sp ! i)) (y (?sp ! i))) [1 ..< length ?sp]") simp_all
  with c show ?thesis by blast
qed

text \<open>
  Claim C7. For a stroke of fewer than 3 points, \<^verbatim>\<open>simplifyPoints\<close> leaves the points as
  they are and \<^verbatim>\<open>createShape\<close> returns, without reading the points or the sampled curve,
  the shape made by \<^verbatim>\<open>absarc(0, 0, 1, 0, 2\<pi>, false)\<close>: a circle of radius 1 about the
  origin that ends where it starts. For any stroke at all, the shape handed to the
  extrusion is closed: it is that circle, or a polygon ended by \<^verbatim>\<open>closePath\<close>; here the
  sampling of the library is taken to return at least one point, as \<^verbatim>\<open>getPoints(64)\<close>
  does.
\<close>

theorem degenerate_stroke_gives_unit_circle:
  "(\<forall>sampleCurve pts. length pts < 3 \<longrightarrow>
      simplifyPoints pts 20 = pts
      \<and> createShape sampleCurve (simplifyPoints pts 20) = Some [Absarc 0 0 1 0 (pi * 2) False])
   \<and> closedShape [Absarc 0 0 1 0 (pi * 2) False]
   \<and> (\<forall>t. distance (arcPoint 0 0 1 0 (pi * 2) t) \<lparr>x = 0, y = 0\<rparr> = 1)
   \<and> (\<forall>sampleCurve pts. (\<forall>cs. sampleCurve cs \<noteq> []) \<longrightarrow>
        (\<exists>sh. createShape sampleCurve (simplifyPoints pts 20) = Some sh \<and> closedShape sh))"
proof (intro conjI allI impI)
  fix sampleCurve :: "Point3D list \<Rightarrow> Point3D list" and pts :: "Point2D list"
  assume "length pts < 3"
  then show "simplifyPoints pts 20 = pts" by (simp add: simplifyPoints_short)
  with \<open>length pts < 3\<close>
  show "createShape sampleCurve (simplifyPoints pts 20) = Some [Absarc 0 0 1 0 (pi * 2) False]"
    by (simp add: createShape_def)
next
  show "closedShape [Absarc 0 0 1 0 (pi * 2) False]"
    using unit_circle_closes by simp
next
  fix t
  show "distance (arcPoint 0 0 1 0 (pi * 2) t) \<lparr>x = 0, y = 0\<rparr> = 1"
    by (rule unit_circle_radius)
next
  fix sampleCurve :: "Point3D list \<Rightarrow> Point3D list" and pts :: "Point2D list"
  assume "\<forall>cs. sampleCurve cs \<noteq> []"
  then show "\<exists>sh. createShape sampleCurve (simplifyPoints pts 20) = Some sh \<and> closedShape sh"
    by (rule createShape_closed)
qed

lemma polygonSamples_nonempty: "polygonSamples cs \<noteq> []"
  by (simp add: polygonSamples_def split: list.splits)

theorem degenerate_stroke_gives_unit_circle_witness:
  "length [\<lparr>x = 0, y = 0\<rparr>, \<lparr>x = 100, y = 0\<rparr>] < 3
   \<and> createShape polygonSamples (simplifyPoints [\<lparr>x = 0, y = 0\<rparr>, \<lparr>x = 100, y = 0\<rparr>] 20)
       = Some [Absarc 0 0 1 0 (pi * 2) False]
   \<and> createShape polygonSamples (simplifyPoints corner100 20) \<noteq> None
   \<and> closedShape (the (createShape polygonSamples (simplifyPoints corner100 20)))"
proof -
  have l: "length [\<lparr>x = 0, y = 0\<rparr>, \<lparr>x = 100, y = 0\<rparr>] < 3" by simp
  from degenerate_stroke_gives_unit_circle [THEN conjunct1, rule_format, OF l, of polygonSamples]
  have a: "createShape polygonSamples (simplifyPoints [\<lparr>x = 0, y = 0\<rparr>, \<lparr>x = 100, y = 0\<rparr>] 20)
       = Some [Absarc 0 0 1 0 (pi * 2) False]"
    by blast
  from degenerate_stroke_gives_unit_circle [THEN conjunct2, THEN conjunct2, THEN conjunct2,
      rule_format, of polygonSamples corner100, OF polygonSamples_nonempty]
  obtain sh where "createShape polygonSamples (simplifyPoints corner100 20) = Some sh"
    and "closedShape sh"
    by blast
  with l a show ?thesis by simp
qed

section \<open>Inflation\<close>

lemma inflateVertex_near:
  "distance3 v c \<le> 1 / 1000 \<Longrightarrow> inflateVertex amount c v = v"
  by (simp add: inflateVertex_def distance3_def Let_def)

lemma inflateVertex_far:
  assumes far: "distance3 v c > 1 / 1000" and pos: "0 < amount"
  shows "distance3 (inflateVertex amount c v) c = distance3 v c + amount / 10"
proof -
  have p: "0 < distance3 v c" using far by simp
  have a: "0 \<le> amount * (1 / 10)" using pos by simp
  have iv: "inflateVertex amount c v =
      \<lparr>x = x v + ((x v - x c) / distance3 v c) * (amount * (1 / 10)),
       y = y v + ((y v - y c) / distance3 v c) * (amount * (1 / 10)),
       z = z v + ((z v - z c) / distance3 v c) * (amount * (1 / 10))\<rparr>"
    using far by (simp add: inflateVertex_def distance3_def Let_def)
  show ?thesis by (simp only: iv distance3_moved_outward [OF p a])
qed

lemma getCenter_twoVertices: "getCenter twoVertices = \<lparr>x = 1, y = 0, z = 0\<rparr>"
  by (simp add: getCenter_def twoVertices_def)

text \<open>
  Claim C4. In the inflation pass with a positive inflation amount, a vertex whose
  distance from the centre of the bounding box is at most 0.001 keeps its position, and
  every other vertex ends strictly farther from that centre than it was (by a tenth of
  the amount). The configured amount is positive, and \<^verbatim>\<open>inflateGeometry\<close> applies the
  pass with it to the position attribute.
\<close>

theorem inflation_moves_outward:
  "(\<forall>amount vs i. 0 < amount \<and> i < length vs \<longrightarrow>
      length (inflatePositions amount vs) = length vs
      \<and> (distance3 (vs ! i) (getCenter vs) \<le> 1 / 1000 \<longrightarrow>
            inflatePositions amount vs ! i = vs ! i)
      \<and> (distance3 (vs ! i) (getCenter vs) > 1 / 1000 \<longrightarrow>
            distance3 (inflatePositions amount vs ! i) (getCenter vs)
              > distance3 (vs ! i) (getCenter vs)))
   \<and> 0 < SCENE_INFLATION_AMOUNT
   \<and> (\<forall>computeVertexNormals g vs ns.
        positionAttribute g = Some vs \<and> normalAttribute g = Some ns \<longrightarrow>
        positionAttribute (inflateGeometry computeVertexNormals g)
          = Some (inflatePositions SCENE_INFLATION_AMOUNT vs))"
proof (intro conjI allI impI)
  fix amount :: real and vs :: "Point3D list" and i
  assume h: "0 < amount \<and> i < length vs"
  show "length (inflatePositions amount vs) = length vs"
    by (simp add: inflatePositions_def)
  {
    assume "distance3 (vs ! i) (getCenter vs) \<le> 1 / 1000"
    with h show "inflatePositions amount vs ! i = vs ! i"
      by (simp add: inflatePositions_def inflateVertex_near)
  }
  {
    assume far: "distance3 (vs ! i) (getCenter vs) > 1 / 1000"
    from h have "0 < amount" by simp
    from inflateVertex_far [OF far this] h
    show "distance3 (inflatePositions amount vs ! i) (getCenter vs)
              > distance3 (vs ! i) (getCenter vs)"
      by (simp add: inflatePositions_def)
  }
next
  show "0 < SCENE_INFLATION_AMOUNT" by (simp add: SCENE_INFLATION_AMOUNT_def)
next
  fix computeVertexNormals :: "Point3D list \<Rightarrow> Point3D list" and g :: Geometry and vs ns
  assume "positionAttribute g = Some vs \<and> normalAttribute g = Some ns"
  then show "positionAttribute (inflateGeometry computeVertexNormals g)
          = Some (inflatePositions SCENE_INFLATION_AMOUNT vs)"
    by (simp add: inflateGeometry_def Let_def)
qed

lemma distance3_twoVertices:
  "distance3 (twoVertices ! 1) \<lparr>x = 1, y = 0, z = 0\<rparr> = 1"
  by (simp add: twoVertices_def distance3_def)

theorem inflation_moves_outward_witness:
  "0 < SCENE_INFLATION_AMOUNT \<and> (1::nat) < length twoVertices
   \<and> getCenter twoVertices = \<lparr>x = 1, y = 0, z = 0\<rparr>
   \<and> distance3 (twoVertices ! 1) (getCenter twoVertices) = 1
   \<and> distance3 (inflatePositions SCENE_INFLATION_AMOUNT twoVertices ! 1) (getCenter twoVertices) > 1"
proof -
  have a: "0 < SCENE_INFLATION_AMOUNT" by (simp add: SCENE_INFLATION_AMOUNT_def)
  have l: "(1::nat) < length twoVertices" by (simp add: twoVertices_def)
  have d: "distance3 (twoVertices ! 1) (getCenter twoVertices) = 1"
    by (simp only: getCenter_twoVertices distance3_twoVertices)
  from inflation_moves_outward [THEN conjunct1, rule_format, OF conjI [OF a l]]
  have "distance3 (twoVertices ! 1) (getCenter twoVertices) > 1 / 1000 \<longrightarrow>
            distance3 (inflatePositions SCENE_INFLATION_AMOUNT twoVertices ! 1) (getCenter twoVertices)
              > distance3 (twoVertices ! 1) (getCenter twoVertices)"
    by blast
  with d have "distance3 (inflatePositions SCENE_INFLATION_AMOUNT twoVertices ! 1) (getCenter twoVertices) > 1"
    by simp
  with a l d getCenter_twoVertices show ?thesis by simp
qed

section \<open>Removing an object\<close>

lemma indexOf_None: "indexOf a xs = None \<longleftrightarrow> a \<notin> set xs"
  by (induction xs) auto

lemma indexOf_Some:
  "indexOf a xs = Some i \<Longrightarrow> i < length xs \<and> xs ! i = a"
  by (induction xs arbitrary: i) (auto split: if_splits)

lemma splice_distinct:
  assumes "distinct xs" and "i < length xs"
  shows "distinct (take i xs @ drop (Suc i) xs)"
    and "set (take i xs @ drop (Suc i) xs) = set xs - {xs ! i}"
proof -
  from assms(2) have xs: "xs = take i xs @ (xs ! i) # drop (Suc i) xs"
    by (simp add: id_take_nth_drop)
  with assms(1) have d: "distinct (take i xs @ (xs ! i) # drop (Suc i) xs)" by simp
  then show "distinct (take i xs @ drop (Suc i) xs)" by auto
  from d have "xs ! i \<notin> set (take i xs)" and "xs ! i \<notin> set (drop (Suc i) xs)" by auto
  moreover have "set xs = set (take i xs) \<union> {xs ! i} \<union> set (drop (Suc i) xs)"
    by (subst xs) auto
  ultimately show "set (take i xs @ drop (Suc i) xs) = set xs - {xs ! i}" by auto
qed

lemma removeObject_absent: "obj \<notin> set (objects m) \<Longrightarrow> removeObject obj fade m = m"
  by (simp add: removeObject_def indexOf_None [THEN iffD2])

lemma removeObject_present:
  assumes "managerInv m" and "obj \<in> set (objects m)"
  shows "obj \<notin> set (objects (removeObject obj fade m))"
    and "set (objects (removeObject obj fade m)) = set (objects m) - {obj}"
    and "distinct (objects (removeObject obj fade m))"
    and "disposals (removeObject obj fade m) = disposals m @ [(obj, fade)]"
    and "sceneMeshes (removeObject obj fade m) = sceneMeshes m"
    and "store (removeObject obj fade m) = store m"
    and "nextRef (removeObject obj fade m) = nextRef m"
proof -
  from assms(2) obtain i where i: "indexOf obj (objects m) = Some i"
    using indexOf_None [of obj "objects m"] by (cases "indexOf obj (objects m)") auto
  from indexOf_Some [OF i] have il: "i < length (objects m)" and ix: "objects m ! i = obj"
    by simp_all
  from assms(1) have d: "distinct (objects m)" by (simp add: managerInv_def)
  have r: "removeObject obj fade m =
      m\<lparr>objects := take i (objects m) @ drop (Suc i) (objects m),
        disposals := disposals m @ [(obj, fade)]\<rparr>"
    by (simp add: removeObject_def i)
  from splice_distinct [OF d il] ix
  show "obj \<notin> set (objects (removeObject obj fade m))"
    and "set (objects (removeObject obj fade m)) = set (objects m) - {obj}"
    and "distinct (objects (removeObject obj fade m))"
    by (simp_all add: r)
  show "disposals (removeObject obj fade m) = disposals m @ [(obj, fade)]"
    and "sceneMeshes (removeObject obj fade m) = sceneMeshes m"
    and "store (removeObject obj fade m) = store m"
    and "nextRef (removeObject obj fade m) = nextRef m"
    by (simp_all add: r)
qed

lemma managerInv_removeObject: "managerInv m \<Longrightarrow> managerInv (removeObject obj fade m)"
proof (cases "obj \<in> set (objects m)")
  case True
  assume inv: "managerInv m"
  from removeObject_present [OF inv True, of fade] inv show ?thesis
    by (auto simp: managerInv_def list_all_iff)
next
  case False
  assume "managerInv m"
  with False show ?thesis by (simp add: removeObject_absent)
qed

lemma managerInv_step: "managerInv m \<Longrightarrow> managerInv (managerStep m opn)"
proof (cases opn)
  case (RemoveObject obj fade)
  assume "managerInv m"
  with RemoveObject show ?thesis by (simp add: managerInv_removeObject)
next
  case (CreateFromStroke stroke made)
  assume "managerInv m"
  with CreateFromStroke show ?thesis
    by (auto simp: managerInv_def createFromStroke_def Let_def list_all_iff)
next
  case (FinishDisposal obj)
  assume "managerInv m"
  with FinishDisposal show ?thesis by (simp add: managerInv_def finishDisposal_def)
next
  case (Update dt t)
  assume "managerInv m"
  with Update show ?thesis by (simp add: managerInv_def update_def)
next
  case ClearObjects
  then show ?thesis by (simp add: managerInv_def clearObjects_def)
qed

lemma managerInv_foldl: "managerInv m \<Longrightarrow> managerInv (foldl managerStep m ops)"
  by (induction ops arbitrary: m) (simp_all add: managerInv_step)

lemma managerInv_run: "managerInv (runManager ops initialManager)"
  unfolding runManager_def
  by (rule managerInv_foldl) (simp add: managerInv_def initialManager_def)

text \<open>The update of an object reads only the objects of the list.\<close>

lemma softCollisionAvoidance_cong:
  "(\<forall>r \<in> set objs. ha r = hb r) \<Longrightarrow>
     softCollisionAvoidance ha objs dt ob = softCollisionAvoidance hb objs dt ob"
  unfolding softCollisionAvoidance_def
  by (induction objs arbitrary: ob) simp_all

lemma updateObject_cong:
  assumes "\<forall>r \<in> set objs. ha r = hb r" and "r0 \<in> set objs"
  shows "\<forall>r \<in> set objs. updateObject objs dt t ha r0 r = updateObject objs dt t hb r0 r"
  using assms softCollisionAvoidance_cong [OF assms(1)]
  by (simp add: updateObject_def)

lemma foldl_updateObject_cong:
  "(\<forall>r \<in> set objs. ha r = hb r) \<Longrightarrow> set rs \<subseteq> set objs \<Longrightarrow>
     \<forall>r \<in> set objs. foldl (updateObject objs dt t) ha rs r = foldl (updateObject objs dt t) hb rs r"
proof (induction rs arbitrary: ha hb)
  case Nil
  then show ?case by simp
next
  case (Cons r0 rs)
  from Cons.prems have "r0 \<in> set objs" and sub: "set rs \<subseteq> set objs" by simp_all
  from updateObject_cong [OF Cons.prems(1) this(1)]
  have "\<forall>r \<in> set objs. updateObject objs dt t ha r0 r = updateObject objs dt t hb r0 r" .
  from Cons.IH [OF this sub] show ?case by simp
qed

lemma updateObject_other: "r \<noteq> r0 \<Longrightarrow> updateObject objs dt t h r0 r = h r"
  by (simp add: updateObject_def)

lemma foldl_updateObject_unlisted:
  "r \<notin> set rs \<Longrightarrow> foldl (updateObject objs dt t) h rs r = h r"
  by (induction rs arbitrary: h) (auto simp: updateObject_other)

text \<open>
  Claim C9. After any run of the manager, \<^verbatim>\<open>removeObject\<close> has taken the object out of
  the list of objects by the time it returns: the disposal is only scheduled, and the mesh
  is still in the scene. A per-frame update after that leaves the removed object
  untouched, and what it computes for the remaining objects does not depend on the
  removed one. When the object is not in the list, \<^verbatim>\<open>removeObject\<close> changes nothing, so
  a second call for the same object has no effect.
\<close>

theorem removeObject_leaves_active_set:
  "\<forall>ops obj fade fade' dt t.
     (let m = runManager ops initialManager; m' = removeObject obj fade m
      in obj \<notin> set (objects m')
       \<and> set (objects m') = set (objects m) - {obj}
       \<and> sceneMeshes m' = sceneMeshes m
       \<and> (obj \<in> set (objects m) \<longrightarrow> disposals m' = disposals m @ [(obj, fade)])
       \<and> (obj \<notin> set (objects m) \<longrightarrow> m' = m)
       \<and> removeObject obj fade' m' = m'
       \<and> store (update dt t m') obj = store m' obj
       \<and> (\<forall>other. \<forall>r \<in> set (objects m').
             store (update dt t (m'\<lparr>store := (store m')(obj := other)\<rparr>)) r
               = store (update dt t m') r))"
proof (intro allI)
  fix ops obj fade fade' dt t
  define m where "m = runManager ops initialManager"
  define m' where "m' = removeObject obj fade m"
  have inv: "managerInv m" unfolding m_def by (rule managerInv_run)
  have gone: "obj \<notin> set (objects m')"
    using removeObject_present(1) [OF inv] removeObject_absent [of obj m fade]
    unfolding m'_def by (cases "obj \<in> set (objects m)") auto
  have sets: "set (objects m') = set (objects m) - {obj}"
    using removeObject_present(2) [OF inv] removeObject_absent [of obj m fade]
    unfolding m'_def by (cases "obj \<in> set (objects m)") auto
  have scene: "sceneMeshes m' = sceneMeshes m"
    using removeObject_present(5) [OF inv] removeObject_absent [of obj m fade]
    unfolding m'_def by (cases "obj \<in> set (objects m)") auto
  have disp: "obj \<in> set (objects m) \<longrightarrow> disposals m' = disposals m @ [(obj, fade)]"
    using removeObject_present(4) [OF inv] unfolding m'_def by blast
  have same: "obj \<notin> set (objects m) \<longrightarrow> m' = m"
    unfolding m'_def by (simp add: removeObject_absent)
  have again: "removeObject obj fade' m' = m'"
    using gone by (rule removeObject_absent)
  have still: "store (update dt t m') obj = store m' obj"
    using gone by (simp add: update_def foldl_updateObject_unlisted)
  have indep: "\<forall>other. \<forall>r \<in> set (objects m').
             store (update dt t (m'\<lparr>store := (store m')(obj := other)\<rparr>)) r
               = store (update dt t m') r"
  proof (intro allI)
    fix other
    have "\<forall>r \<in> set (objects m'). ((store m')(obj := other)) r = store m' r"
      using gone by auto
    from foldl_updateObject_cong [where ha = "(store m')(obj := other)" and hb = "store m'",
        OF this subset_refl, of dt t]
    show "\<forall>r \<in> set (objects m').
             store (update dt t (m'\<lparr>store := (store m')(obj := other)\<rparr>)) r
               = store (update dt t m') r"
      by (simp add: update_def)
  qed
  from gone sets scene disp same again still indep
  show "let m = runManager ops initialManager; m' = removeObject obj fade m
      in obj \<notin> set (objects m')
       \<and> set (objects m') = set (objects m) - {obj}
       \<and> sceneMeshes m' = sceneMeshes m
       \<and> (obj \<in> set (objects m) \<longrightarrow> disposals m' = disposals m @ [(obj, fade)])
       \<and> (obj \<notin> set (objects m) \<longrightarrow> m' = m)
       \<and> removeObject obj fade' m' = m'
       \<and> store (update dt t m') obj = store m' obj
       \<and> (\<forall>other. \<forall>r \<in> set (objects m').
             store (update dt t (m'\<lparr>store := (store m')(obj := other)\<rparr>)) r
               = store (update dt t m') r)"
    unfolding Let_def m_def [symmetric] m'_def [symmetric] by blast
qed

lemma objects_twoBalloons: "objects (runManager twoBalloonOps initialManager) = [0, 1]"
  by (simp add: runManager_def twoBalloonOps_def createFromStroke_def initialManager_def Let_def)

theorem removeObject_leaves_active_set_witness:
  "0 \<in> set (objects (runManager twoBalloonOps initialManager))
   \<and> 1 \<in> set (objects (removeObject 0 False (runManager twoBalloonOps initialManager)))
   \<and> 0 \<notin> set (objects (removeObject 0 False (runManager twoBalloonOps initialManager)))
   \<and> disposals (removeObject 0 False (runManager twoBalloonOps initialManager))
       = disposals (runManager twoBalloonOps initialManager) @ [(0, False)]
   \<and> store (update (1 / 2) 1
         ((removeObject 0 False (runManager twoBalloonOps initialManager))
            \<lparr>store := (store (removeObject 0 False (runManager twoBalloonOps initialManager)))
                (0 := heldObject)\<rparr>)) 1
       = store (update (1 / 2) 1 (removeObject 0 False (runManager twoBalloonOps initialManager))) 1
   \<and> 7 \<notin> set (objects (runManager twoBalloonOps initialManager))
   \<and> removeObject 7 False (runManager twoBalloonOps initialManager)
       = runManager twoBalloonOps initialManager"
proof -
  have a: "0 \<in> set (objects (runManager twoBalloonOps initialManager))"
    and b: "7 \<notin> set (objects (runManager twoBalloonOps initialManager))"
    by (simp_all add: objects_twoBalloons)
  note t0 = removeObject_leaves_active_set [rule_format, of twoBalloonOps 0 False False "1 / 2" 1,
      unfolded Let_def]
  note t7 = removeObject_leaves_active_set [rule_format, of twoBalloonOps 7 False False "1 / 2" 1,
      unfolded Let_def]
  from t0 have s: "set (objects (removeObject 0 False (runManager twoBalloonOps initialManager)))
      = set (objects (runManager twoBalloonOps initialManager)) - {0}"
    by blast
  then have c: "1 \<in> set (objects (removeObject 0 False (runManager twoBalloonOps initialManager)))"
    by (simp add: objects_twoBalloons)
  from t0 c have d: "store (update (1 / 2) 1
         ((removeObject 0 False (runManager twoBalloonOps initialManager))
            \<lparr>store := (store (removeObject 0 False (runManager twoBalloonOps initialManager)))
                (0 := heldObject)\<rparr>)) 1
       = store (update (1 / 2) 1 (removeObject 0 False (runManager twoBalloonOps initialManager))) 1"
    by blast
  from t0 a have e: "disposals (removeObject 0 False (runManager twoBalloonOps initialManager))
       = disposals (runManager twoBalloonOps initialManager) @ [(0, False)]"
    by blast
  from t0 have f: "0 \<notin> set (objects (removeObject 0 False (runManager twoBalloonOps initialManager)))"
    by blast
  from t7 b have g: "removeObject 7 False (runManager twoBalloonOps initialManager)
       = runManager twoBalloonOps initialManager"
    by blast
  from a b c d e f g show ?thesis by blast
qed


section \<open>Grabbed objects\<close>

lemma vectorLength_subVectors: "vectorLength (subVectors a b) = distance3 a b"
  by (simp add: vectorLength_def subVectors_def distance3_def Let_def)

lemma pushAway_position:
  assumes ids: "id' other \<noteq> id' obj"
    and far: "1 / 1000 < distance3 (mesh_position obj) (mesh_position other)"
    and near: "distance3 (mesh_position obj) (mesh_position other) < SCENE_COLLISION_RADIUS"
  shows "mesh_position (pushAway dt obj other) =
     \<lparr>x = x (mesh_position obj)
          + ((x (mesh_position obj) - x (mesh_position other))
              / distance3 (mesh_position obj) (mesh_position other))
            * (((SCENE_COLLISION_RADIUS - distance3 (mesh_position obj) (mesh_position other))
                 / SCENE_COLLISION_RADIUS) * dt * 2),
      y = y (mesh_position obj)
          + ((y (mesh_position obj) - y (mesh_position other))
              / distance3 (mesh_position obj) (mesh_position other))
            * (((SCENE_COLLISION_RADIUS - distance3 (mesh_position obj) (mesh_position other))
                 / SCENE_COLLISION_RADIUS) * dt * 2),
      z = z (mesh_position obj)
          + ((z (mesh_position obj) - z (mesh_position other))
              / distance3 (mesh_position obj) (mesh_position other))
            * (((SCENE_COLLISION_RADIUS - distance3 (mesh_position obj) (mesh_position other))
                 / SCENE_COLLISION_RADIUS) * dt * 2)\<rparr>"
proof -
  have nz: "vectorLength (subVectors (mesh_position obj) (mesh_position other)) \<noteq> 0"
    using far by (simp add: vectorLength_subVectors)
  show ?thesis
    using ids far near nz
    by (simp add: pushAway_def Let_def vectorLength_subVectors normalize_def
        multiplyScalar_def addVector_def)
       (simp add: subVectors_def)
qed

lemma pushAway_far:
  assumes ids: "id' other \<noteq> id' obj"
    and far: "1 / 1000 < distance3 (mesh_position obj) (mesh_position other)"
    and near: "distance3 (mesh_position obj) (mesh_position other) < SCENE_COLLISION_RADIUS"
    and dt: "0 \<le> dt"
  shows "distance3 (mesh_position (pushAway dt obj other)) (mesh_position other)
     = distance3 (mesh_position obj) (mesh_position other)
       + ((SCENE_COLLISION_RADIUS - distance3 (mesh_position obj) (mesh_position other))
            / SCENE_COLLISION_RADIUS) * dt * 2"
proof -
  have p: "0 < distance3 (mesh_position obj) (mesh_position other)" using far by simp
  have "0 \<le> (SCENE_COLLISION_RADIUS - distance3 (mesh_position obj) (mesh_position other))
            / SCENE_COLLISION_RADIUS"
    using near p by simp
  then have a: "0 \<le> ((SCENE_COLLISION_RADIUS - distance3 (mesh_position obj) (mesh_position other))
            / SCENE_COLLISION_RADIUS) * dt * 2"
    using dt by (intro mult_nonneg_nonneg) simp_all
  show ?thesis
    by (simp only: pushAway_position [OF ids far near] distance3_moved_outward [OF p a])
qed

lemma pushAway_id: "id' (pushAway dt obj other) = id' obj"
  by (simp add: pushAway_def Let_def)

lemma pushAway_self: "id' other = id' obj \<Longrightarrow> pushAway dt obj other = obj"
  by (simp add: pushAway_def)

lemma autonomousMotion_id: "id' (autonomousMotion dt t obj) = id' obj"
  by (simp add: autonomousMotion_def Let_def)

lemma applySquish_position: "mesh_position (applySquish obj) = mesh_position obj"
  by (simp add: applySquish_def Let_def)

lemma updateObject_grabbed: "isGrabbed (h r) \<Longrightarrow> updateObject objs dt t h r0 r = h r"
  by (auto simp: updateObject_def)

lemma foldl_updateObject_grabbed:
  "isGrabbed (h r) \<Longrightarrow> foldl (updateObject objs dt t) h rs r = h r"
  by (induction rs arbitrary: h) (simp_all add: updateObject_grabbed)

lemma store_update:
  "store (update dt t m) = foldl (updateObject (objects m) dt t) (store m) (objects m)"
  by (simp add: update_def)

lemma update_pair:
  assumes objs: "objects m = [g, r]" and ne: "g \<noteq> r"
    and gg: "isGrabbed (store m g)" and gr: "\<not> isGrabbed (store m r)"
    and ids: "id' (store m g) \<noteq> id' (store m r)"
  shows "store (update dt t m) r =
      applySquish (pushAway dt (autonomousMotion dt t (store m r)) (store m g))"
proof -
  let ?a = "autonomousMotion dt t (store m r)"
  have 1: "updateObject [g, r] dt t (store m) g = store m"
    using gg by (simp add: updateObject_def)
  have 2: "pushAway dt (pushAway dt ?a (store m g)) (store m r) = pushAway dt ?a (store m g)"
    by (rule pushAway_self) (simp add: pushAway_id autonomousMotion_id)
  have f: "foldl (updateObject [g, r] dt t) (store m) [g, r] = updateObject [g, r] dt t (store m) r"
    by (simp add: 1)
  have sc: "softCollisionAvoidance (store m) [g, r] dt ?a = pushAway dt ?a (store m g)"
    by (simp add: softCollisionAvoidance_def 2)
  have "store (update dt t m) r = updateObject [g, r] dt t (store m) r r"
    by (simp only: store_update objs f)
  also have "\<dots> = applySquish (softCollisionAvoidance (store m) [g, r] dt ?a)"
    using gr by (simp add: updateObject_def)
  finally show ?thesis by (simp only: sc)
qed

lemma update_grabbed: "isGrabbed (store m r) \<Longrightarrow> store (update dt t m) r = store m r"
  by (simp add: update_def foldl_updateObject_grabbed)

text \<open>The loop of update, seen from one object of the list.\<close>

lemma nth_not_in_take: "distinct rs \<Longrightarrow> i < length rs \<Longrightarrow> rs ! i \<notin> set (take i rs)"
  by (metis distinct_append id_take_nth_drop disjoint_iff list.set_intros(1))

lemma nth_not_in_drop: "distinct rs \<Longrightarrow> i < length rs \<Longrightarrow> rs ! i \<notin> set (drop (Suc i) rs)"
  by (metis distinct_append distinct.simps(2) id_take_nth_drop)

lemma foldl_updateObject_at:
  assumes "distinct rs" and "i < length rs"
  shows "foldl (updateObject objs dt t) h0 rs (rs ! i)
     = updateObject objs dt t (foldl (updateObject objs dt t) h0 (take i rs)) (rs ! i) (rs ! i)"
proof -
  define a where "a = take i rs"
  define b where "b = drop (Suc i) rs"
  have rs: "rs = a @ rs ! i # b"
    unfolding a_def b_def using assms(2) by (rule id_take_nth_drop)
  have nb: "rs ! i \<notin> set b"
    unfolding b_def using assms by (rule nth_not_in_drop)
  have "foldl (updateObject objs dt t) h0 rs = foldl (updateObject objs dt t) h0 (a @ rs ! i # b)"
    using rs by simp
  also have "\<dots> = foldl (updateObject objs dt t)
      (updateObject objs dt t (foldl (updateObject objs dt t) h0 a) (rs ! i)) b"
    by simp
  finally show ?thesis
    using foldl_updateObject_unlisted [OF nb] by (simp add: a_def)
qed

lemma softCollisionAvoidance_split:
  assumes "j < length objs"
  shows "softCollisionAvoidance h objs dt ob
     = softCollisionAvoidance h (drop (Suc j) objs) dt
         (pushAway dt (softCollisionAvoidance h (take j objs) dt ob) (h (objs ! j)))"
proof -
  define a where "a = take j objs"
  define b where "b = drop (Suc j) objs"
  have objs: "objs = a @ objs ! j # b"
    unfolding a_def b_def using assms by (rule id_take_nth_drop)
  have "softCollisionAvoidance h objs dt ob = softCollisionAvoidance h (a @ objs ! j # b) dt ob"
    using objs by simp
  also have "\<dots> = softCollisionAvoidance h b dt
         (pushAway dt (softCollisionAvoidance h a dt ob) (h (objs ! j)))"
    by (simp add: softCollisionAvoidance_def)
  finally show ?thesis by (simp add: a_def b_def)
qed

lemma softCollisionAvoidance_id: "id' (softCollisionAvoidance h qs dt ob) = id' ob"
  unfolding softCollisionAvoidance_def
  by (induction qs arbitrary: ob) (simp_all add: pushAway_id)

lemma storeAt_grabbed: "isGrabbed (store m g) \<Longrightarrow> storeAt dt t m i g = store m g"
  by (simp add: storeAt_def foldl_updateObject_grabbed)

lemma update_obstacle:
  assumes d: "distinct (objects m)" and i: "i < length (objects m)" and j: "j < length (objects m)"
    and free: "\<not> isGrabbed (store m (objects m ! i))"
    and held: "isGrabbed (store m (objects m ! j))"
  shows "store (update dt t m) (objects m ! i) =
     applySquish (softCollisionAvoidance (storeAt dt t m i) (drop (Suc j) (objects m)) dt
       (pushAway dt
          (softCollisionAvoidance (storeAt dt t m i) (take j (objects m)) dt
             (autonomousMotion dt t (store m (objects m ! i))))
          (store m (objects m ! j))))"
proof -
  let ?r = "objects m ! i"
  let ?h = "storeAt dt t m i"
  have hr: "?h ?r = store m ?r"
    unfolding storeAt_def
    by (rule foldl_updateObject_unlisted) (rule nth_not_in_take [OF d i])
  have hg: "?h (objects m ! j) = store m (objects m ! j)"
    using held by (rule storeAt_grabbed)
  have "store (update dt t m) ?r = updateObject (objects m) dt t ?h ?r ?r"
    unfolding storeAt_def by (simp only: store_update foldl_updateObject_at [OF d i])
  also have "\<dots> = applySquish (softCollisionAvoidance ?h (objects m) dt
      (autonomousMotion dt t (store m ?r)))"
    using free hr by (simp add: updateObject_def)
  also have "softCollisionAvoidance ?h (objects m) dt (autonomousMotion dt t (store m ?r))
     = softCollisionAvoidance ?h (drop (Suc j) (objects m)) dt
         (pushAway dt
            (softCollisionAvoidance ?h (take j (objects m)) dt (autonomousMotion dt t (store m ?r)))
            (store m (objects m ! j)))"
    using softCollisionAvoidance_split [OF j, of ?h dt] hg by simp
  finally show ?thesis .
qed

text \<open>
  Claim C8, as the code has it. A per-frame update leaves an object with
  \<^verbatim>\<open>isGrabbed = true\<close> exactly as it was: no rotation, bobbing, drift, collision
  displacement or squish. The collision pass of any other object does not look at
  \<^verbatim>\<open>isGrabbed\<close>: against an obstacle with another identifier, at a distance above 0.001
  and below the collision radius, and with a positive time step, it moves the object
  strictly farther from the obstacle. In every scene without a repeated reference, for
  every free object and every grabbed object of the list, the update of the free object
  is its rotated, bobbed and drifted state, taken through the collision pass of the
  objects listed before the grabbed one (\<open>before\<close>), then pushed away from the grabbed
  object in its unchanged state (\<open>after\<close>), then taken through the pass of the objects
  listed behind it; and when \<open>before\<close> lies between 0.001 and the collision radius from
  the grabbed object, \<open>after\<close> lies strictly farther from it. With just a grabbed and a
  free object in the scene, the free one ends at its rotated, bobbed and drifted state
  pushed away from the grabbed one.
\<close>

theorem grabbed_objects_only_repel:
  "(\<forall>dt t m r. isGrabbed (store m r) \<longrightarrow> store (update dt t m) r = store m r)
   \<and> (\<forall>dt obj other.
        id' other \<noteq> id' obj \<and> 0 < dt
        \<and> 1 / 1000 < distance3 (mesh_position obj) (mesh_position other)
        \<and> distance3 (mesh_position obj) (mesh_position other) < SCENE_COLLISION_RADIUS
        \<longrightarrow> distance3 (mesh_position (pushAway dt obj other)) (mesh_position other)
              > distance3 (mesh_position obj) (mesh_position other))
   \<and> (\<forall>dt t m g r.
        objects m = [g, r] \<and> g \<noteq> r \<and> isGrabbed (store m g) \<and> \<not> isGrabbed (store m r)
        \<and> id' (store m g) \<noteq> id' (store m r)
        \<longrightarrow> store (update dt t m) g = store m g
          \<and> store (update dt t m) r =
              applySquish (pushAway dt (autonomousMotion dt t (store m r)) (store m g)))
   \<and> (\<forall>dt t m i j.
        distinct (objects m) \<and> i < length (objects m) \<and> j < length (objects m)
        \<and> \<not> isGrabbed (store m (objects m ! i)) \<and> isGrabbed (store m (objects m ! j))
        \<longrightarrow> (let r = objects m ! i; g = objects m ! j; h = storeAt dt t m i;
                 before = foldl (\<lambda>ob q. pushAway dt ob (h q))
                            (autonomousMotion dt t (store m r)) (take j (objects m));
                 after = pushAway dt before (store m g)
             in store (update dt t m) g = store m g
              \<and> h g = store m g
              \<and> store (update dt t m) r =
                  applySquish (foldl (\<lambda>ob q. pushAway dt ob (h q)) after (drop (Suc j) (objects m)))
              \<and> (id' (store m g) \<noteq> id' (store m r) \<and> 0 < dt
                  \<and> 1 / 1000 < distance3 (mesh_position before) (mesh_position (store m g))
                  \<and> distance3 (mesh_position before) (mesh_position (store m g))
                      < SCENE_COLLISION_RADIUS
                  \<longrightarrow> distance3 (mesh_position after) (mesh_position (store m g))
                        = distance3 (mesh_position before) (mesh_position (store m g))
                          + ((SCENE_COLLISION_RADIUS
                               - distance3 (mesh_position before) (mesh_position (store m g)))
                              / SCENE_COLLISION_RADIUS) * dt * 2
                    \<and> distance3 (mesh_position after) (mesh_position (store m g))
                        > distance3 (mesh_position before) (mesh_position (store m g)))))"
proof -
  have p1: "\<forall>dt t m r. isGrabbed (store m r) \<longrightarrow> store (update dt t m) r = store m r"
    by (simp add: update_grabbed)
  have step: "distance3 (mesh_position (pushAway dt obj other)) (mesh_position other)
        = distance3 (mesh_position obj) (mesh_position other)
          + ((SCENE_COLLISION_RADIUS - distance3 (mesh_position obj) (mesh_position other))
              / SCENE_COLLISION_RADIUS) * dt * 2
      \<and> distance3 (mesh_position (pushAway dt obj other)) (mesh_position other)
        > distance3 (mesh_position obj) (mesh_position other)"
    if ids: "id' other \<noteq> id' obj" and dt: "0 < dt"
      and far: "1 / 1000 < distance3 (mesh_position obj) (mesh_position other)"
      and near: "distance3 (mesh_position obj) (mesh_position other) < SCENE_COLLISION_RADIUS"
    for dt :: real and obj other :: BalloonObject
  proof -
    have "0 < (SCENE_COLLISION_RADIUS - distance3 (mesh_position obj) (mesh_position other))
            / SCENE_COLLISION_RADIUS"
      using near far by (simp add: SCENE_COLLISION_RADIUS_def)
    then have "0 < ((SCENE_COLLISION_RADIUS - distance3 (mesh_position obj) (mesh_position other))
            / SCENE_COLLISION_RADIUS) * dt * 2"
      using dt by (intro mult_pos_pos) simp_all
    with pushAway_far [OF ids far near, of dt] dt show ?thesis by simp
  qed
  have p2: "\<forall>dt obj other.
        id' other \<noteq> id' obj \<and> 0 < dt
        \<and> 1 / 1000 < distance3 (mesh_position obj) (mesh_position other)
        \<and> distance3 (mesh_position obj) (mesh_position other) < SCENE_COLLISION_RADIUS
        \<longrightarrow> distance3 (mesh_position (pushAway dt obj other)) (mesh_position other)
              > distance3 (mesh_position obj) (mesh_position other)"
    using step by blast
  have p3: "\<forall>dt t m g r.
        objects m = [g, r] \<and> g \<noteq> r \<and> isGrabbed (store m g) \<and> \<not> isGrabbed (store m r)
        \<and> id' (store m g) \<noteq> id' (store m r)
        \<longrightarrow> store (update dt t m) g = store m g
          \<and> store (update dt t m) r =
              applySquish (pushAway dt (autonomousMotion dt t (store m r)) (store m g))"
    by (simp add: update_grabbed update_pair)
  have p4: "let r = objects m ! i; g = objects m ! j; h = storeAt dt t m i;
                 before = foldl (\<lambda>ob q. pushAway dt ob (h q))
                            (autonomousMotion dt t (store m r)) (take j (objects m));
                 after = pushAway dt before (store m g)
             in store (update dt t m) g = store m g
              \<and> h g = store m g
              \<and> store (update dt t m) r =
                  applySquish (foldl (\<lambda>ob q. pushAway dt ob (h q)) after (drop (Suc j) (objects m)))
              \<and> (id' (store m g) \<noteq> id' (store m r) \<and> 0 < dt
                  \<and> 1 / 1000 < distance3 (mesh_position before) (mesh_position (store m g))
                  \<and> distance3 (mesh_position before) (mesh_position (store m g))
                      < SCENE_COLLISION_RADIUS
                  \<longrightarrow> distance3 (mesh_position after) (mesh_position (store m g))
                        = distance3 (mesh_position before) (mesh_position (store m g))
                          + ((SCENE_COLLISION_RADIUS
                               - distance3 (mesh_position before) (mesh_position (store m g)))
                              / SCENE_COLLISION_RADIUS) * dt * 2
                    \<and> distance3 (mesh_position after) (mesh_position (store m g))
                        > distance3 (mesh_position before) (mesh_position (store m g)))"
    if h: "distinct (objects m) \<and> i < length (objects m) \<and> j < length (objects m)
        \<and> \<not> isGrabbed (store m (objects m ! i)) \<and> isGrabbed (store m (objects m ! j))"
    for dt t and m :: ObjectManager and i j
  proof -
    from h have d: "distinct (objects m)" and i: "i < length (objects m)"
      and j: "j < length (objects m)"
      and free: "\<not> isGrabbed (store m (objects m ! i))"
      and held: "isGrabbed (store m (objects m ! j))"
      by simp_all
    define before where "before = foldl (\<lambda>ob q. pushAway dt ob (storeAt dt t m i q))
                            (autonomousMotion dt t (store m (objects m ! i))) (take j (objects m))"
    have idb: "id' before = id' (store m (objects m ! i))"
      using softCollisionAvoidance_id [of "storeAt dt t m i" "take j (objects m)" dt]
      by (simp add: before_def softCollisionAvoidance_def autonomousMotion_id)
    have a: "store (update dt t m) (objects m ! j) = store m (objects m ! j)"
      using held by (rule update_grabbed)
    have b: "storeAt dt t m i (objects m ! j) = store m (objects m ! j)"
      using held by (rule storeAt_grabbed)
    have c: "store (update dt t m) (objects m ! i) =
       applySquish (foldl (\<lambda>ob q. pushAway dt ob (storeAt dt t m i q))
         (pushAway dt before (store m (objects m ! j))) (drop (Suc j) (objects m)))"
      unfolding before_def
      using update_obstacle [OF d i j free held, of dt t]
      by (simp only: softCollisionAvoidance_def)
    have e: "id' (store m (objects m ! j)) \<noteq> id' (store m (objects m ! i)) \<and> 0 < dt
        \<and> 1 / 1000 < distance3 (mesh_position before) (mesh_position (store m (objects m ! j)))
        \<and> distance3 (mesh_position before) (mesh_position (store m (objects m ! j)))
            < SCENE_COLLISION_RADIUS
        \<longrightarrow> distance3 (mesh_position (pushAway dt before (store m (objects m ! j))))
                (mesh_position (store m (objects m ! j)))
              = distance3 (mesh_position before) (mesh_position (store m (objects m ! j)))
                + ((SCENE_COLLISION_RADIUS
                     - distance3 (mesh_position before) (mesh_position (store m (objects m ! j))))
                    / SCENE_COLLISION_RADIUS) * dt * 2
          \<and> distance3 (mesh_position (pushAway dt before (store m (objects m ! j))))
                (mesh_position (store m (objects m ! j)))
              > distance3 (mesh_position before) (mesh_position (store m (objects m ! j)))"
      using step [of "store m (objects m ! j)" before dt] idb by simp
    from a b c e show ?thesis
      unfolding Let_def before_def [symmetric] by blast
  qed
  from p1 p2 p3 p4 show ?thesis by blast
qed

lemma autonomousMotion_nearObject: "autonomousMotion (1 / 2) 0 nearObject = nearObject"
  by (simp add: autonomousMotion_def nearObject_def blankObject_def Let_def)

lemma distance3_near: "distance3 (mesh_position nearObject) (mesh_position heldObject) = 1"
  by (simp add: nearObject_def heldObject_def blankObject_def distance3_def)

lemma pushAway_same: "pushAway dt ob ob = ob"
  by (rule pushAway_self) simp

lemma threeScene_facts:
  "objects threeScene = [1, 0, 2]"
  "store threeScene 0 = heldObject"
  "store threeScene 1 = nearObject"
  "store threeScene (Suc 0) = nearObject"
  "store threeScene 2 = farObject"
  by (simp_all add: threeScene_def)

theorem grabbed_objects_only_repel_witness:
  "isGrabbed (store nearScene 0) \<and> \<not> isGrabbed (store nearScene 1)
   \<and> objects nearScene = [0, 1]
   \<and> store (update (1 / 2) 0 nearScene) 0 = store nearScene 0
   \<and> store (update (1 / 2) 0 nearScene) 1
       = applySquish (pushAway (1 / 2) (autonomousMotion (1 / 2) 0 (store nearScene 1))
           (store nearScene 0))
   \<and> distance3 (mesh_position nearObject) (mesh_position heldObject) = 1
   \<and> distance3 (mesh_position (pushAway (1 / 2) nearObject heldObject)) (mesh_position heldObject)
       > 1
   \<and> distinct (objects threeScene)
   \<and> \<not> isGrabbed (store threeScene (objects threeScene ! 0))
   \<and> isGrabbed (store threeScene (objects threeScene ! 1))
   \<and> store (update (1 / 2) 0 threeScene) 0 = heldObject
   \<and> store (update (1 / 2) 0 threeScene) 1
       = applySquish (pushAway (1 / 2) (pushAway (1 / 2) nearObject heldObject) farObject)
   \<and> distance3 (mesh_position (pushAway (1 / 2) nearObject heldObject)) (mesh_position heldObject)
       = 4 / 3"
proof -
  have a: "isGrabbed (store nearScene 0)" and b: "\<not> isGrabbed (store nearScene 1)"
    and c: "objects nearScene = [0, 1]"
    and d: "id' (store nearScene 0) \<noteq> id' (store nearScene 1)"
    by (simp_all add: nearScene_def heldObject_def nearObject_def blankObject_def)
  have e: "(0::nat) \<noteq> 1" by simp
  from grabbed_objects_only_repel [THEN conjunct2, THEN conjunct2, THEN conjunct1, rule_format,
      of nearScene 0 1 "1 / 2" 0] a b c d e
  have f: "store (update (1 / 2) 0 nearScene) 0 = store nearScene 0
     \<and> store (update (1 / 2) 0 nearScene) 1
       = applySquish (pushAway (1 / 2) (autonomousMotion (1 / 2) 0 (store nearScene 1))
           (store nearScene 0))"
    by blast
  have ids: "id' heldObject \<noteq> id' nearObject"
    by (simp add: heldObject_def nearObject_def)
  from grabbed_objects_only_repel [THEN conjunct2, THEN conjunct1, rule_format,
      of heldObject nearObject "1 / 2"] ids
  have g: "distance3 (mesh_position (pushAway (1 / 2) nearObject heldObject)) (mesh_position heldObject)
       > 1"
    by (simp add: distance3_near SCENE_COLLISION_RADIUS_def)
  have t1: "distinct (objects threeScene)"
    and t2: "(0::nat) < length (objects threeScene)" and t3: "(1::nat) < length (objects threeScene)"
    and t4: "\<not> isGrabbed (store threeScene (objects threeScene ! 0))"
    and t5: "isGrabbed (store threeScene (objects threeScene ! 1))"
    by (simp_all add: threeScene_facts heldObject_def nearObject_def blankObject_def)
  have h0: "storeAt (1 / 2) 0 threeScene 0 = store threeScene"
    by (simp add: storeAt_def)
  note inst = grabbed_objects_only_repel [THEN conjunct2, THEN conjunct2, THEN conjunct2,
      rule_format, of threeScene 0 1 "1 / 2" 0, unfolded Let_def]
  from inst t1 t2 t3 t4 t5
  have u: "store (update (1 / 2) 0 threeScene) 0 = heldObject
     \<and> store (update (1 / 2) 0 threeScene) 1
       = applySquish (pushAway (1 / 2) (pushAway (1 / 2) nearObject heldObject) farObject)
     \<and> (id' heldObject \<noteq> id' nearObject \<and> (0::real) < 1 / 2
          \<and> 1 / 1000 < distance3 (mesh_position nearObject) (mesh_position heldObject)
          \<and> distance3 (mesh_position nearObject) (mesh_position heldObject) < SCENE_COLLISION_RADIUS
         \<longrightarrow> distance3 (mesh_position (pushAway (1 / 2) nearObject heldObject)) (mesh_position heldObject)
              = distance3 (mesh_position nearObject) (mesh_position heldObject)
                + ((SCENE_COLLISION_RADIUS - distance3 (mesh_position nearObject) (mesh_position heldObject))
                    / SCENE_COLLISION_RADIUS) * (1 / 2) * 2)"
    by (simp add: threeScene_facts h0 autonomousMotion_nearObject pushAway_same)
  with ids have v: "distance3 (mesh_position (pushAway (1 / 2) nearObject heldObject)) (mesh_position heldObject)
       = 4 / 3"
    by (simp add: distance3_near SCENE_COLLISION_RADIUS_def)
  from a b c f g distance3_near t1 t4 t5 u v show ?thesis by blast
qed

lemma autonomousMotion_freeObject: "autonomousMotion (16 / 1000) 0 freeObject = freeObject"
  by (simp add: autonomousMotion_def freeObject_def blankObject_def Let_def)

lemma pushAway_overlap: "pushAway (16 / 1000) freeObject heldObject = freeObject"
  by (simp add: pushAway_def Let_def freeObject_def heldObject_def blankObject_def
      subVectors_def vectorLength_def)

text \<open>
  A free object within the collision radius of a grabbed one is not always pushed: when
  the two are at the same place (distance at most 0.001), the update leaves the free
  object where it is.
\<close>

theorem grabbed_objects_only_repel_counterexample:
  "isGrabbed (store overlapScene 0) \<and> \<not> isGrabbed (store overlapScene 1)
   \<and> objects overlapScene = [0, 1]
   \<and> distance3 (mesh_position (store overlapScene 1)) (mesh_position (store overlapScene 0))
       < SCENE_COLLISION_RADIUS
   \<and> store (update (16 / 1000) 0 overlapScene) 1 = store overlapScene 1
   \<and> distance3 (mesh_position (store (update (16 / 1000) 0 overlapScene) 1))
        (mesh_position (store (update (16 / 1000) 0 overlapScene) 0)) = 0"
proof -
  have a: "isGrabbed (store overlapScene 0)" and b: "\<not> isGrabbed (store overlapScene 1)"
    and c: "objects overlapScene = [0, 1]"
    and d: "id' (store overlapScene 0) \<noteq> id' (store overlapScene 1)"
    and s0: "store overlapScene 0 = heldObject" and s1: "store overlapScene 1 = freeObject"
    by (simp_all add: overlapScene_def heldObject_def freeObject_def blankObject_def)
  have e: "(0::nat) \<noteq> 1" by simp
  have u1: "store (update (16 / 1000) 0 overlapScene) 1 = freeObject"
    by (simp only: update_pair [OF c e a b d] s0 s1 autonomousMotion_freeObject pushAway_overlap)
       (simp add: applySquish_def freeObject_def blankObject_def)
  have u0: "store (update (16 / 1000) 0 overlapScene) 0 = heldObject"
    using update_grabbed [OF a] by (simp only: s0)
  have z: "distance3 (mesh_position freeObject) (mesh_position heldObject) = 0"
    by (simp add: freeObject_def heldObject_def blankObject_def distance3_def)
  from a b c u0 u1 z s0 s1 show ?thesis
    by (simp add: SCENE_COLLISION_RADIUS_def)
qed

end
